theory Spec2Isabelle
  imports Main "HOL-Library.Sublist" "HOL-Library.Multiset"
begin

section \<open>The search module: a shallow embedding of AbstractSearch.service.ts\<close>

text \<open>
  The development follows the latest revision of the abstract search service
  (the one with \<^verbatim>\<open>synonymRank\<close>, \<^verbatim>\<open>lastCacheUpdate\<close> and the
  \<^verbatim>\<open>partialMatch\<close> flag). Methods of the class become functions that take
  the fields they read and return the fields they write; the abstract methods an
  integrator implements (\<^verbatim>\<open>getSearchCriteria\<close>, \<^verbatim>\<open>getRawDataElement\<close>,
  \<^verbatim>\<open>getSearchUrl\<close>) are parameters.
\<close>

subsection \<open>Strings and arrays of the host language\<close>

text \<open>
  Strings are \<^typ>\<open>string\<close>. \<^verbatim>\<open>toLowerCase\<close> is modelled on the ASCII letters
  (other characters are left alone), \<^verbatim>\<open>trim\<close> on the ASCII white space.
\<close>

definition lowerChar :: "char \<Rightarrow> char" where
  "lowerChar c =
     (case map_of (zip ''ABCDEFGHIJKLMNOPQRSTUVWXYZ'' ''abcdefghijklmnopqrstuvwxyz'') c of
        Some d \<Rightarrow> d
      | None \<Rightarrow> c)"

definition toLowerCase :: "string \<Rightarrow> string" where
  "toLowerCase s = map lowerChar s"

definition isWhiteSpace :: "char \<Rightarrow> bool" where
  "isWhiteSpace c = (c \<in> set [CHR '' '', CHR 0x09, CHR 0x0A, CHR 0x0B, CHR 0x0C, CHR 0x0D])"

definition trim :: "string \<Rightarrow> string" where
  "trim s = rev (dropWhile isWhiteSpace (rev (dropWhile isWhiteSpace s)))"

text \<open>\<^verbatim>\<open>s.split(sep)\<close> for a one-character separator: the empty string gives one empty token.\<close>

fun split :: "char \<Rightarrow> string \<Rightarrow> string list" where
  "split sep [] = [[]]"
| "split sep (c # cs) =
     (if c = sep then [] # split sep cs
      else (case split sep cs of t # ts \<Rightarrow> (c # t) # ts | [] \<Rightarrow> [[c]]))"

text \<open>\<^verbatim>\<open>arr.toString()\<close>: the elements joined by commas.\<close>

fun joinComma :: "string list \<Rightarrow> string" where
  "joinComma [] = []"
| "joinComma [x] = x"
| "joinComma (x # y # ys) = x @ '','' @ joinComma (y # ys)"

text \<open>\<^verbatim>\<open>hay.includes(needle)\<close> on strings: the needle occurs as a contiguous part.\<close>

definition includesStr :: "string \<Rightarrow> string \<Rightarrow> bool" where
  "includesStr hay needle = sublist needle hay"

text \<open>\<^verbatim>\<open>[...new Set(xs)]\<close>: the first occurrence of every element, in order.\<close>

definition newSet :: "'a list \<Rightarrow> 'a list" where
  "newSet xs = fold (\<lambda>x seen. if x \<in> set seen then seen else seen @ [x]) xs []"

text \<open>
  \<^verbatim>\<open>xs.sort((a, b) => key(b) - key(a))\<close>: the engines the module runs on sort stably,
  so the result is the stable arrangement by descending key.
\<close>

definition sortDescending :: "('a \<Rightarrow> int) \<Rightarrow> 'a list \<Rightarrow> 'a list" where
  "sortDescending key xs = sort_key (\<lambda>x. - key x) xs"

subsection \<open>The data model (models.ts)\<close>

datatype SearchElement = Str string | Arr "string list"

text \<open>
  \<^verbatim>\<open>fullMatch\<close> is optional in the interface; it is only ever read as a truth value,
  so an absent flag is \<^term>\<open>False\<close>. Ranks are integers.
\<close>

record SearchRankModel =
  searchElement :: SearchElement
  fullMatch :: bool
  rank :: int
  synonymRank :: int

text \<open>
  A cached record: the engine owns \<^verbatim>\<open>searchRank\<close> (undefined until the first
  scoring pass); everything else is the integrator's and is carried as \<open>content\<close>.
\<close>

record 'a CommonSearchModel =
  searchRank :: "int option"
  content :: 'a

record 'a SearchResultModel =
  search :: string
  foundItems :: nat
  results :: "'a CommonSearchModel list"

record KeywordFound =
  found :: bool
  synonym :: bool

datatype AEMTypes = Page | Asset

record ServerDataRequestConfig =
  path :: string
  type :: AEMTypes

datatype Status = Success | Error

record LastCacheUpdate =
  time :: string
  status :: Status

text \<open>
  A node of the remote tree. The body is JSON, so the \<^verbatim>\<open>children\<close> relation may be
  missing (\<^term>\<open>None\<close>) or an array, possibly empty.
\<close>

datatype 'n RawServerData = RawServerData (jcrContent: 'n) (children: "'n RawServerData list option")

text \<open>
  What the console receives. Only the message kinds are kept, with the values that
  identify them; timestamps and the service name are left out.
\<close>

datatype console_line =
    InfoUpdateCache
  | InfoFinishLoadingCache
  | InfoFinishCallbacks
  | ErrorTrigger string
  | InfoStartFetching nat string
  | InfoDoneFetching nat string
  | WarnFetchError nat string
  | InfoFetchingDone string
  | WarnFetchingFailed
  | InfoUsedSecond string
  | WarnSetUpDataFailed

text \<open>
  The fields of the service. \<open>searchLog\<close> is not a field of the class: it is a spy on
  \<^verbatim>\<open>searchForSingleWord\<close>, which appends the arguments of every invocation, and
  nothing reads it. \<open>ext\<close> stands for the fields a subclass adds.
\<close>

record ('a, 'x) service =
  rawData :: "'a CommonSearchModel list"
  synonymsList :: "string list list"
  lastCacheUpdate :: "LastCacheUpdate option"
  console :: "console_line list"
  searchLog :: "(string \<times> bool) list"
  ext :: 'x

subsection \<open>Synonyms\<close>

definition getSynonyms :: "string list list \<Rightarrow> string \<Rightarrow> string list" where
  "getSynonyms synList word =
     fold (\<lambda>list synonyms.
             let isSynonym = (word \<in> set list)
             in if isSynonym then newSet (synonyms @ list) else synonyms)
          synList [toLowerCase word]"

text \<open>
  \<^verbatim>\<open>getSynonymsOfWord\<close>: for every comma-separated word the groups that hold it,
  compared case-insensitively. \<^verbatim>\<open>find\<close> returns the synonym it found, which
  \<^verbatim>\<open>filter\<close> reads as a truth value: the empty string is falsy. A later
  occurrence of a word overwrites the earlier entry.
\<close>

definition getSynonymsOfWord :: "string list list \<Rightarrow> string \<Rightarrow> (string \<rightharpoonup> string list list)" where
  "getSynonymsOfWord synList searchWord =
     fold (\<lambda>word res.
             res(word \<mapsto>
               filter (\<lambda>synonymList.
                         case find (\<lambda>syn. toLowerCase syn = toLowerCase word) synonymList of
                           None \<Rightarrow> False
                         | Some syn \<Rightarrow> syn \<noteq> [])
                      synList))
          (split (CHR '','') searchWord) Map.empty"

subsection \<open>Matching one ranked field\<close>

text \<open>
  \<^verbatim>\<open>matchKeywordToSynonym\<close>. The guards \<^verbatim>\<open>(x || '')\<close> are the identity on
  strings.
\<close>

definition matchString :: "string \<Rightarrow> string \<Rightarrow> bool \<Rightarrow> bool" where
  "matchString syn el fm =
     (if fm then toLowerCase syn \<in> set (split (CHR '' '') (toLowerCase el))
      else includesStr (toLowerCase el) (toLowerCase syn))"

fun matchKeywordToSynonym :: "string \<Rightarrow> SearchElement \<Rightarrow> bool \<Rightarrow> bool" where
  "matchKeywordToSynonym syn (Arr els) fm = (filter (\<lambda>el. matchString syn el fm) els \<noteq> [])"
| "matchKeywordToSynonym syn (Str el) fm = matchString syn el fm"

text \<open>
  The loop of \<^verbatim>\<open>isKeyWordFoundInSynonym\<close> over the synonyms; \<open>isSynonym0\<close> is the
  value the variable \<^verbatim>\<open>isSynonym\<close> holds when the iteration starts. The loop
  leaves at the first synonym found.
\<close>

fun synonymLoop :: "SearchRankModel \<Rightarrow> string \<Rightarrow> bool \<Rightarrow> bool \<Rightarrow> string list \<Rightarrow> KeywordFound" where
  "synonymLoop sm searchWord partialMatch isSynonym0 [] =
     \<lparr>found = False, synonym = isSynonym0\<rparr>"
| "synonymLoop sm searchWord partialMatch isSynonym0 (syn # rest) =
     (let isSynonym = (syn \<noteq> searchWord \<and> \<not> fullMatch sm);
          fm = (if partialMatch then False else if isSynonym then isSynonym else fullMatch sm);
          fnd = (case searchElement sm of
                   Arr els \<Rightarrow> list_ex (\<lambda>el. matchKeywordToSynonym syn (Str el) fm) els
                 | Str el \<Rightarrow> matchKeywordToSynonym syn (Str el) fm)
      in if fnd then \<lparr>found = True, synonym = isSynonym\<rparr>
         else synonymLoop sm searchWord partialMatch isSynonym rest)"

text \<open>
  A field whose value is the empty string is falsy and is not compared at all. The
  values are strings by their type, so nothing in the loop throws and the handler of
  the loop is never entered.
\<close>

definition isKeyWordFoundInSynonym ::
  "SearchRankModel \<Rightarrow> string list \<Rightarrow> string \<Rightarrow> bool \<Rightarrow> KeywordFound" where
  "isKeyWordFoundInSynonym sm searchWithSynonyms searchWord partialMatch =
     (if searchElement sm = Str [] then \<lparr>found = False, synonym = False\<rparr>
      else synonymLoop sm searchWord partialMatch False searchWithSynonyms)"

subsection \<open>Scoring a record\<close>

text \<open>
  \<^verbatim>\<open>getSearchRank\<close> writes \<^verbatim>\<open>searchRank\<close> of the record it is given and
  returns that record. The criteria are computed from the record as it arrives; they
  are an array by the type of \<^verbatim>\<open>getSearchCriteria\<close>, so the guard \<^verbatim>\<open>|| []\<close> is
  the identity. The rank has just been set when a weight is added to it, so the
  addition never meets an undefined rank.
\<close>

definition addRank :: "int \<Rightarrow> 'a CommonSearchModel \<Rightarrow> 'a CommonSearchModel" where
  "addRank elRank m = m\<lparr>searchRank := map_option (\<lambda>r. r + elRank) (searchRank m)\<rparr>"

definition getSearchRank ::
  "('a CommonSearchModel \<Rightarrow> SearchRankModel list) \<Rightarrow> 'a CommonSearchModel \<Rightarrow>
     string list \<Rightarrow> string \<Rightarrow> bool \<Rightarrow> 'a CommonSearchModel" where
  "getSearchRank getSearchCriteria searchModel searchWithSynonyms searchWord partialMatch =
     (let criteria = getSearchCriteria searchModel
      in fold (\<lambda>el m.
                 let k = isKeyWordFoundInSynonym el searchWithSynonyms searchWord partialMatch
                 in if found k
                    then addRank (if synonym k then synonymRank el else rank el) m
                    else m)
              criteria (searchModel\<lparr>searchRank := Some 0\<rparr>))"

definition rankOf :: "'a CommonSearchModel \<Rightarrow> int" where
  "rankOf m = (case searchRank m of Some r \<Rightarrow> r | None \<Rightarrow> 0)"

subsection \<open>Queries\<close>

text \<open>
  \<^verbatim>\<open>searchForSingleWord\<close>. The scoring pass writes the rank of every cached
  record, so the cache is part of the result. For the empty word nothing is scored
  and the result is the cache itself.
\<close>

definition searchForSingleWord ::
  "('a CommonSearchModel \<Rightarrow> SearchRankModel list) \<Rightarrow> string \<Rightarrow> bool \<Rightarrow> ('a, 'x) service \<Rightarrow>
     'a SearchResultModel \<times> ('a, 'x) service" where
  "searchForSingleWord getSearchCriteria word partialMatchesForSecondSearch s =
     (let synonyms = getSynonyms (synonymsList s) word;
          s' = s\<lparr>searchLog := searchLog s @ [(word, partialMatchesForSecondSearch)]\<rparr>
      in if word \<noteq> []
         then (let scored = map (\<lambda>searchElement.
                                   getSearchRank getSearchCriteria searchElement synonyms word
                                     partialMatchesForSecondSearch)
                                (rawData s);
                   res = sortDescending rankOf (filter (\<lambda>m. rankOf m > 0) scored)
               in (\<lparr>search = joinComma synonyms, foundItems = length res, results = res\<rparr>,
                   s'\<lparr>rawData := scored\<rparr>))
         else (\<lparr>search = joinComma synonyms, foundItems = length (rawData s),
                results = rawData s\<rparr>, s'))"

text \<open>The loop of the second level: the first word with a hit ends the whole query.\<close>

fun secondLevel ::
  "('a CommonSearchModel \<Rightarrow> SearchRankModel list) \<Rightarrow> string list \<Rightarrow> ('a, 'x) service \<Rightarrow>
     'a SearchResultModel option \<times> ('a, 'x) service" where
  "secondLevel getSearchCriteria [] s = (None, s)"
| "secondLevel getSearchCriteria (w # ws) s =
     (case searchForSingleWord getSearchCriteria w False s of
        (secondLevelSearch, s') \<Rightarrow>
          if foundItems secondLevelSearch > 0
          then (Some secondLevelSearch, s'\<lparr>console := console s' @ [InfoUsedSecond w]\<rparr>)
          else secondLevel getSearchCriteria ws s')"

definition notDefined :: "'a SearchResultModel" where
  "notDefined = \<lparr>search = ''not-definied'', foundItems = 0, results = []\<rparr>"

text \<open>
  \<^verbatim>\<open>getSearchResult\<close>; an undefined argument is \<^term>\<open>None\<close>. The test
  \<^verbatim>\<open>!search\<close> comes before the trimming.
\<close>

definition getSearchResult ::
  "('a CommonSearchModel \<Rightarrow> SearchRankModel list) \<Rightarrow> string option \<Rightarrow> ('a, 'x) service \<Rightarrow>
     'a SearchResultModel \<times> ('a, 'x) service" where
  "getSearchResult getSearchCriteria query s =
     (case query of
        None \<Rightarrow> (notDefined, s)
      | Some q \<Rightarrow>
          if q = [] then (notDefined, s)
          else
            (let word = toLowerCase (trim q);
                 hasMultipleWords = (length (split (CHR '' '') word) > 1)
             in case searchForSingleWord getSearchCriteria word False s of
                  (firstLevelSearch, s1) \<Rightarrow>
                    (case (if foundItems firstLevelSearch = 0 \<and> hasMultipleWords
                           then secondLevel getSearchCriteria
                                  (sortDescending (\<lambda>w. int (length w)) (split (CHR '' '') word)) s1
                           else (None, s1)) of
                       (Some secondLevelSearch, s2) \<Rightarrow> (secondLevelSearch, s2)
                     | (None, s2) \<Rightarrow>
                         if length (results firstLevelSearch) = 0
                         then searchForSingleWord getSearchCriteria word True s2
                         else (firstLevelSearch, s2))))"

subsection \<open>Flattening the remote tree\<close>

lemma children_smaller:
  assumes "child \<in> set nodes" and "children child = Some cs"
  shows "size_list size cs < size_list size nodes"
proof -
  have "size_list size cs < size child"
    using assms(2) by (cases child) simp
  also have "size child \<le> size_list size nodes"
    using assms(1) by (simp add: size_list_estimation')
  finally show ?thesis .
qed

text \<open>
  \<^verbatim>\<open>setUpData\<close>: a falsy argument is \<^term>\<open>None\<close>. \<^verbatim>\<open>if (child.children)\<close>
  asks whether the relation is there; an empty array is truthy.
\<close>

function setUpData ::
  "('n RawServerData \<Rightarrow> AEMTypes option \<Rightarrow> 'a CommonSearchModel) \<Rightarrow> AEMTypes option \<Rightarrow>
     'n RawServerData list option \<Rightarrow> ('a, 'x) service \<Rightarrow> ('a, 'x) service" where
  "setUpData getRawDataElement ty data s =
     (case data of
        None \<Rightarrow> s\<lparr>console := console s @ [WarnSetUpDataFailed]\<rparr>
      | Some nodes \<Rightarrow>
          fold (\<lambda>child st.
                  case children child of
                    None \<Rightarrow> st
                  | Some cs \<Rightarrow>
                      setUpData getRawDataElement ty (Some cs)
                        (st\<lparr>rawData := rawData st @ [getRawDataElement child ty]\<rparr>))
               nodes s)"
  by pat_completeness auto
termination
  by (relation "measure (\<lambda>(g, ty, data, s). case data of None \<Rightarrow> 0 | Some nodes \<Rightarrow> size_list size nodes)")
     (auto simp: children_smaller)

subsection \<open>Fetching\<close>

text \<open>
  What one request gives: it throws (the transport fails, or the body is not JSON), or
  it gives the parsed body. Of the body only \<^verbatim>\<open>pathList\<close> is read: \<^term>\<open>None\<close> is a
  falsy body or one without \<^verbatim>\<open>pathList\<close>. Every element of \<^verbatim>\<open>pathList\<close> is
  handed to \<^verbatim>\<open>setUpData\<close>, so it is an array of nodes, or falsy.
\<close>

type_synonym 'n pathList = "'n RawServerData list option list"

datatype 'n fetched = Throws | Parsed "'n pathList option"

datatype searchUrls = OneUrl string | Urls "string list"

definition isValid :: "'n pathList option \<Rightarrow> bool" where
  "isValid data = (case data of None \<Rightarrow> False | Some pl \<Rightarrow> length pl > 0)"

text \<open>
  The loop over the mirrors. \<^verbatim>\<open>data\<close> and \<^verbatim>\<open>searchUrl\<close> are declared outside
  the loop and keep their values when a request throws. The first component of the
  result is \<^verbatim>\<open>isValidResponse\<close> when the loop is left.
\<close>

fun fetchLoop ::
  "(nat \<Rightarrow> string \<Rightarrow> 'n fetched) \<Rightarrow> nat \<Rightarrow> string list \<Rightarrow>
     'n pathList option \<times> string \<times> console_line list \<Rightarrow>
     bool \<times> 'n pathList option \<times> string \<times> console_line list" where
  "fetchLoop fetch urlIndex [] (data, searchUrl, con) = (False, data, searchUrl, con)"
| "fetchLoop fetch urlIndex (url # urls) (data, searchUrl, con) =
     (case (case fetch urlIndex url of
              Parsed d \<Rightarrow>
                (d, url, con @ [InfoStartFetching urlIndex url, InfoDoneFetching urlIndex url])
            | Throws \<Rightarrow>
                (data, searchUrl, con @ [InfoStartFetching urlIndex url, WarnFetchError urlIndex url])) of
        (data', searchUrl', con') \<Rightarrow>
          if isValid data' then (True, data', searchUrl', con')
          else fetchLoop fetch (Suc urlIndex) urls (data', searchUrl', con'))"

text \<open>
  \<^verbatim>\<open>Array.isArray(urls) ? urls : [...urls]\<close>: spreading a string gives its
  characters, each a string of its own.
\<close>

definition spreadUrls :: "searchUrls \<Rightarrow> string list" where
  "spreadUrls urls = (case urls of Urls us \<Rightarrow> us | OneUrl u \<Rightarrow> map (\<lambda>c. [c]) u)"

text \<open>\<^verbatim>\<open>getServerData\<close>. \<open>now\<close> is the clock when the outcome is recorded.\<close>

definition getServerData ::
  "('n RawServerData \<Rightarrow> AEMTypes option \<Rightarrow> 'a CommonSearchModel) \<Rightarrow>
   (ServerDataRequestConfig option \<Rightarrow> searchUrls) \<Rightarrow> (nat \<Rightarrow> string \<Rightarrow> 'n fetched) \<Rightarrow> string \<Rightarrow>
   ServerDataRequestConfig option \<Rightarrow> ('a, 'x) service \<Rightarrow> ('a, 'x) service" where
  "getServerData getRawDataElement getSearchUrl fetch now serverDataRequestConfig s =
     (let urls = getSearchUrl serverDataRequestConfig;
          searchUrls = spreadUrls urls
      in case fetchLoop fetch 0 searchUrls (None, [], console s) of
           (isValidResponse, data, searchUrl, con) \<Rightarrow>
             if isValidResponse
             then (let s1 = (if serverDataRequestConfig = None
                             then s\<lparr>rawData := [], console := con\<rparr>
                             else s\<lparr>console := con\<rparr>);
                       s2 = fold (\<lambda>startChild st.
                                    setUpData getRawDataElement
                                      (map_option type serverDataRequestConfig) startChild st)
                                 (case data of Some pl \<Rightarrow> pl | None \<Rightarrow> []) s1
                   in s2\<lparr>console := console s2 @ [InfoFetchingDone searchUrl],
                         lastCacheUpdate := Some \<lparr>time = now, status = Success\<rparr>\<rparr>)
             else s\<lparr>console := con @ [WarnFetchingFailed],
                    lastCacheUpdate := Some \<lparr>time = now, status = Error\<rparr>\<rparr>)"

subsection \<open>The refresh cycle\<close>

text \<open>
  A callback runs on the service and either returns or throws, leaving the service
  as it is at that moment. \<^verbatim>\<open>serverDataCallBacks\<close> is a field of the class; here
  it is an argument.
\<close>

datatype 's outcome = Returned 's | Threw string 's

fun runCallbacks :: "('s \<Rightarrow> 's outcome) list \<Rightarrow> 's \<Rightarrow> 's outcome" where
  "runCallbacks [] s = Returned s"
| "runCallbacks (fn # fns) s =
     (case fn s of
        Returned s' \<Rightarrow> runCallbacks fns s'
      | Threw e s' \<Rightarrow> Threw e s')"

definition triggerGetServerData ::
  "('n RawServerData \<Rightarrow> AEMTypes option \<Rightarrow> 'a CommonSearchModel) \<Rightarrow>
   (ServerDataRequestConfig option \<Rightarrow> searchUrls) \<Rightarrow> (nat \<Rightarrow> string \<Rightarrow> 'n fetched) \<Rightarrow> string \<Rightarrow>
   (('a, 'x) service \<Rightarrow> ('a, 'x) service outcome) list \<Rightarrow> ('a, 'x) service \<Rightarrow>
   ('a, 'x) service outcome" where
  "triggerGetServerData getRawDataElement getSearchUrl fetch now serverDataCallBacks s =
     (let s0 = s\<lparr>console := console s @ [InfoUpdateCache]\<rparr>;
          s1 = getServerData getRawDataElement getSearchUrl fetch now None s0;
          s2 = s1\<lparr>console := console s1 @ [InfoFinishLoadingCache]\<rparr>
      in case runCallbacks serverDataCallBacks s2 of
           Returned s3 \<Rightarrow> Returned (s3\<lparr>console := console s3 @ [InfoFinishCallbacks]\<rparr>)
         | Threw e s3 \<Rightarrow> Returned (s3\<lparr>console := console s3 @ [ErrorTrigger e]\<rparr>))"

section \<open>The specification's notions\<close>

text \<open>
  The definitions of this section are not taken from the source. They say, in the
  words of the specification, what the properties below compare the code with.
\<close>

subsection \<open>Matching\<close>

text \<open>A synonym hit: the synonym is not the query word and the field does not mandate whole words.\<close>

definition spec_synonymHit :: "SearchRankModel \<Rightarrow> string \<Rightarrow> string \<Rightarrow> bool" where
  "spec_synonymHit sm syn searchWord = (syn \<noteq> searchWord \<and> \<not> fullMatch sm)"

text \<open>Whole-word matching: the lower-cased value, split on spaces, contains the lower-cased synonym.\<close>

definition spec_wholeWord :: "string \<Rightarrow> string \<Rightarrow> bool" where
  "spec_wholeWord v syn = (toLowerCase syn \<in> set (split (CHR '' '') (toLowerCase v)))"

definition spec_substring :: "string \<Rightarrow> string \<Rightarrow> bool" where
  "spec_substring v syn = sublist (toLowerCase syn) (toLowerCase v)"

definition spec_comparison :: "bool \<Rightarrow> SearchRankModel \<Rightarrow> string \<Rightarrow> string \<Rightarrow> string \<Rightarrow> bool" where
  "spec_comparison relax sm searchWord syn v =
     (if relax then spec_substring v syn
      else if fullMatch sm \<or> spec_synonymHit sm syn searchWord then spec_wholeWord v syn
      else spec_substring v syn)"

text \<open>An array-valued field matches if any element matches.\<close>

definition spec_fieldMatches :: "bool \<Rightarrow> SearchRankModel \<Rightarrow> string \<Rightarrow> string \<Rightarrow> bool" where
  "spec_fieldMatches relax sm searchWord syn =
     (case searchElement sm of
        Str v \<Rightarrow> spec_comparison relax sm searchWord syn v
      | Arr vs \<Rightarrow> (\<exists>v\<in>set vs. spec_comparison relax sm searchWord syn v))"

subsection \<open>The second tier\<close>

text \<open>
  The service after the words \<open>ws\<close> have been searched one after the other, and whether
  the \<open>k\<close>-th word of \<open>ws\<close> has a hit when its turn comes.
\<close>

definition afterWords ::
  "('a CommonSearchModel \<Rightarrow> SearchRankModel list) \<Rightarrow> string list \<Rightarrow> ('a, 'x) service \<Rightarrow>
     ('a, 'x) service" where
  "afterWords gsc ws s = fold (\<lambda>w st. snd (searchForSingleWord gsc w False st)) ws s"

definition wordHits ::
  "('a CommonSearchModel \<Rightarrow> SearchRankModel list) \<Rightarrow> ('a, 'x) service \<Rightarrow> string list \<Rightarrow> nat \<Rightarrow> bool" where
  "wordHits gsc s ws k =
     (foundItems (fst (searchForSingleWord gsc (ws ! k) False (afterWords gsc (take k ws) s))) > 0)"

text \<open>Every cached record has been scored, and none has a positive rank.\<close>

definition allScoredNonPositive :: "('a, 'x) service \<Rightarrow> bool" where
  "allScoredNonPositive s =
     list_all (\<lambda>m. case searchRank m of Some r \<Rightarrow> r \<le> 0 | None \<Rightarrow> False) (rawData s)"

subsection \<open>Pre-order\<close>

lemma child_smaller:
  assumes "children n = Some cs" and "c \<in> set cs"
  shows "size c < size n"
proof -
  have "size c \<le> size_list size cs"
    using assms(2) by (simp add: size_list_estimation')
  also have "size_list size cs < size n"
    using assms(1) by (cases n) simp
  finally show ?thesis .
qed

text \<open>All nodes of a tree, a node before its children, the children from left to right.\<close>

function preorder :: "'n RawServerData \<Rightarrow> 'n RawServerData list" where
  "preorder n = n # (case children n of None \<Rightarrow> [] | Some cs \<Rightarrow> concat (map preorder cs))"
  by pat_completeness auto
termination
  by (relation "measure size") (auto simp: child_smaller)

text \<open>The records of the nodes that have a \<^verbatim>\<open>children\<close> relation, in pre-order.\<close>

definition spec_flatten ::
  "('n RawServerData \<Rightarrow> AEMTypes option \<Rightarrow> 'a CommonSearchModel) \<Rightarrow> AEMTypes option \<Rightarrow>
     'n RawServerData list \<Rightarrow> 'a CommonSearchModel list" where
  "spec_flatten g ty nodes =
     map (\<lambda>n. g n ty) (filter (\<lambda>n. children n \<noteq> None) (concat (map preorder nodes)))"

definition spec_flattenPathList ::
  "('n RawServerData \<Rightarrow> AEMTypes option \<Rightarrow> 'a CommonSearchModel) \<Rightarrow> AEMTypes option \<Rightarrow>
     'n pathList \<Rightarrow> 'a CommonSearchModel list" where
  "spec_flattenPathList g ty pl =
     concat (map (\<lambda>startChild. case startChild of None \<Rightarrow> [] | Some nodes \<Rightarrow> spec_flatten g ty nodes) pl)"

text \<open>A node has at least one child.\<close>

definition spec_hasChild :: "'n RawServerData \<Rightarrow> bool" where
  "spec_hasChild n = (case children n of Some (c # cs) \<Rightarrow> True | _ \<Rightarrow> False)"

subsection \<open>Mirrors and callbacks\<close>

text \<open>A response is valid if it parses and has a non-empty \<^verbatim>\<open>pathList\<close>.\<close>

definition validResponse :: "'n fetched \<Rightarrow> bool" where
  "validResponse r = (case r of Throws \<Rightarrow> False | Parsed d \<Rightarrow> isValid d)"

text \<open>What the console shows of one attempt.\<close>

definition attemptLines :: "(nat \<Rightarrow> string \<Rightarrow> 'n fetched) \<Rightarrow> nat \<Rightarrow> string \<Rightarrow> console_line list" where
  "attemptLines fetch i url =
     [InfoStartFetching i url,
      (case fetch i url of Throws \<Rightarrow> WarnFetchError i url | Parsed d \<Rightarrow> InfoDoneFetching i url)]"

text \<open>The service at the moment the first callback of a cycle starts.\<close>

definition callbacksStart ::
  "('n RawServerData \<Rightarrow> AEMTypes option \<Rightarrow> 'a CommonSearchModel) \<Rightarrow>
   (ServerDataRequestConfig option \<Rightarrow> searchUrls) \<Rightarrow> (nat \<Rightarrow> string \<Rightarrow> 'n fetched) \<Rightarrow> string \<Rightarrow>
   ('a, 'x) service \<Rightarrow> ('a, 'x) service" where
  "callbacksStart g getSearchUrl fetch now s =
     (let s1 = getServerData g getSearchUrl fetch now None (s\<lparr>console := console s @ [InfoUpdateCache]\<rparr>)
      in s1\<lparr>console := console s1 @ [InfoFinishLoadingCache]\<rparr>)"

section \<open>A small installation\<close>

text \<open>
  An integrator in the style of the README: a page has a name and a description, the
  name weighs 3, the description 2, a synonym hit 1.
\<close>

definition exampleCriteria :: "(string \<times> string) CommonSearchModel \<Rightarrow> SearchRankModel list" where
  "exampleCriteria m =
     [\<lparr>searchElement = Str (fst (content m)), fullMatch = False, rank = 3, synonymRank = 1\<rparr>,
      \<lparr>searchElement = Str (snd (content m)), fullMatch = False, rank = 2, synonymRank = 1\<rparr>]"

definition exampleService :: "(string \<times> string, unit) service" where
  "exampleService =
     \<lparr>rawData = [\<lparr>searchRank = None, content = (''Impressum'', ''legal notice'')\<rparr>,
                 \<lparr>searchRank = None, content = (''PKW Tarife'', ''rates'')\<rparr>,
                 \<lparr>searchRank = None, content = (''Auto'', ''auto insurance'')\<rparr>],
      synonymsList = [[''auto'', ''pkw'']],
      lastCacheUpdate = None, console = [], searchLog = [], ext = ()\<rparr>"

text \<open>A cache on which an earlier query has left a rank.\<close>

definition rankedService :: "(string \<times> string, unit) service" where
  "rankedService =
     \<lparr>rawData = [\<lparr>searchRank = Some 5, content = (''Auto'', ''auto insurance'')\<rparr>],
      synonymsList = [[''auto'', ''pkw'']],
      lastCacheUpdate = None, console = [], searchLog = [], ext = ()\<rparr>"

definition exampleField :: SearchRankModel where
  "exampleField =
     \<lparr>searchElement = Arr [''Auto Versicherung'', ''KFZ''], fullMatch = False, rank = 3,
      synonymRank = 1\<rparr>"

definition exampleElement :: "string RawServerData \<Rightarrow> AEMTypes option \<Rightarrow> string CommonSearchModel" where
  "exampleElement child ty = \<lparr>searchRank = None, content = jcrContent child\<rparr>"

definition exampleTree :: "string RawServerData list" where
  "exampleTree =
     [RawServerData ''root''
        (Some [RawServerData ''a'' (Some [RawServerData ''a1'' None]),
               RawServerData ''b'' None,
               RawServerData ''c'' (Some [])])]"

definition blankService :: "(string, bool) service" where
  "blankService =
     \<lparr>rawData = [], synonymsList = [], lastCacheUpdate = None, console = [], searchLog = [],
      ext = False\<rparr>"

definition oldService :: "(string, bool) service" where
  "oldService =
     \<lparr>rawData = [\<lparr>searchRank = None, content = ''old''\<rparr>], synonymsList = [],
      lastCacheUpdate = None, console = [], searchLog = [], ext = False\<rparr>"

definition threeMirrors :: "ServerDataRequestConfig option \<Rightarrow> searchUrls" where
  "threeMirrors cfg = Urls [''http://a'', ''http://b'', ''http://c'']"

text \<open>The first two mirrors fail, the third answers with the tree.\<close>

definition thirdAnswers :: "nat \<Rightarrow> string \<Rightarrow> string fetched" where
  "thirdAnswers i url = (if url = ''http://c'' then Parsed (Some [Some exampleTree]) else Throws)"

text \<open>The first mirror throws, the second has no \<^verbatim>\<open>pathList\<close>, the third an empty one.\<close>

definition brokenMirrors :: "nat \<Rightarrow> string \<Rightarrow> string fetched" where
  "brokenMirrors i url =
     (if url = ''http://a'' then Throws
      else if url = ''http://b'' then Parsed None
      else Parsed (Some []))"

definition deadMirrors :: "nat \<Rightarrow> string \<Rightarrow> string fetched" where
  "deadMirrors i url = Throws"

definition failingCallbacks :: "((string, bool) service \<Rightarrow> (string, bool) service outcome) list" where
  "failingCallbacks = [\<lambda>s. Threw ''boom'' s, \<lambda>s. Returned (s\<lparr>ext := True\<rparr>)]"

section \<open>Properties\<close>

subsection \<open>The empty query\<close>

text \<open>
  C8. For the empty string and for an undefined query \<^verbatim>\<open>getSearchResult\<close> returns the
  sentinel without scoring anything: no field of the service changes. The label of the
  sentinel is spelled \<^verbatim>\<open>not-definied\<close>, which is not the label \<^verbatim>\<open>not-defined\<close>.
\<close>

theorem getSearchResult_empty_query:
  "getSearchResult gsc None s = (\<lparr>search = ''not-definied'', foundItems = 0, results = []\<rparr>, s)
   \<and> getSearchResult gsc (Some '''') s
       = (\<lparr>search = ''not-definied'', foundItems = 0, results = []\<rparr>, s)
   \<and> ''not-definied'' \<noteq> ''not-defined''"
  by (simp add: getSearchResult_def notDefined_def)

subsection \<open>Synonyms\<close>

lemma set_newSet_fold:
  "set (fold (\<lambda>x seen. if x \<in> set seen then seen else seen @ [x]) xs acc) = set acc \<union> set xs"
  by (induction xs arbitrary: acc) auto

lemma set_newSet: "set (newSet xs) = set xs"
  by (simp add: newSet_def set_newSet_fold)

lemma distinct_newSet_fold:
  "distinct acc \<Longrightarrow> distinct (fold (\<lambda>x seen. if x \<in> set seen then seen else seen @ [x]) xs acc)"
  by (induction xs arbitrary: acc) auto

lemma distinct_newSet: "distinct (newSet xs)"
  by (simp add: newSet_def distinct_newSet_fold)

lemma set_getSynonyms_fold:
  "set (fold (\<lambda>list synonyms. if word \<in> set list then newSet (synonyms @ list) else synonyms)
          synList acc)
   = set acc \<union> \<Union> {set g | g. g \<in> set synList \<and> word \<in> set g}"
  by (induction synList arbitrary: acc) (auto simp: set_newSet)

text \<open>
  What \<^verbatim>\<open>getSynonyms\<close> returns, as a set: the lower-cased word and every group that
  holds the word as it was given.
\<close>

lemma set_getSynonyms:
  "set (getSynonyms synList word)
     = {toLowerCase word} \<union> \<Union> {set g | g. g \<in> set synList \<and> word \<in> set g}"
  by (simp add: getSynonyms_def Let_def set_getSynonyms_fold)

lemma getSynonyms_empty_word:
  assumes "\<forall>g\<in>set synList. [] \<notin> set g"
  shows "getSynonyms synList [] = [[]]"
proof -
  have "fold (\<lambda>list synonyms. if [] \<in> set list then newSet (synonyms @ list) else synonyms)
          synList acc = acc"
    if "\<forall>g\<in>set synList. [] \<notin> set g" for acc :: "string list"
    using that by (induction synList arbitrary: acc) simp_all
  with assms show ?thesis
    by (simp add: getSynonyms_def Let_def toLowerCase_def)
qed

text \<open>
  C6. The lookup lower-cases the word for the result, but looks the word up in the groups
  as it was given: with the group \<^verbatim>\<open>[car, auto]\<close>, \<^verbatim>\<open>auto\<close> gives both words and
  \<^verbatim>\<open>Auto\<close>, which differs from it only in case, gives \<^verbatim>\<open>auto\<close> alone. The sibling
  \<^verbatim>\<open>getSynonymsOfWord\<close> compares lower-cased words and finds the group for \<^verbatim>\<open>Auto\<close>.
\<close>

theorem getSynonyms_case_sensitive:
  "toLowerCase ''Auto'' = toLowerCase ''auto''
   \<and> getSynonyms [[''car'', ''auto'']] ''auto'' = [''auto'', ''car'']
   \<and> getSynonyms [[''car'', ''auto'']] ''car'' = [''car'', ''auto'']
   \<and> getSynonyms [[''car'', ''auto'']] ''Auto'' = [''auto'']
   \<and> getSynonymsOfWord [[''car'', ''auto'']] ''Auto'' ''Auto'' = Some [[''car'', ''auto'']]"
  by (simp add: getSynonyms_def getSynonymsOfWord_def newSet_def toLowerCase_def lowerChar_def)

subsection \<open>Matching one ranked field\<close>

lemma matchString_spec:
  "matchString syn v (if relax then False
                      else if syn \<noteq> w \<and> \<not> fullMatch sm then syn \<noteq> w \<and> \<not> fullMatch sm
                      else fullMatch sm)
   = spec_comparison relax sm w syn v"
  by (cases relax; cases "fullMatch sm"; cases "syn = w")
     (simp_all add: matchString_def spec_comparison_def spec_wholeWord_def spec_substring_def
        spec_synonymHit_def includesStr_def)

lemma compare_step:
  "(case searchElement sm of
      Arr els \<Rightarrow> list_ex (\<lambda>el. matchKeywordToSynonym syn (Str el)
          (if relax then False
           else if syn \<noteq> w \<and> \<not> fullMatch sm then syn \<noteq> w \<and> \<not> fullMatch sm
           else fullMatch sm)) els
    | Str el \<Rightarrow> matchKeywordToSynonym syn (Str el)
          (if relax then False
           else if syn \<noteq> w \<and> \<not> fullMatch sm then syn \<noteq> w \<and> \<not> fullMatch sm
           else fullMatch sm))
   = spec_fieldMatches relax sm w syn"
proof (cases "searchElement sm")
  case (Str v)
  then show ?thesis
    by (simp only: SearchElement.case matchKeywordToSynonym.simps matchString_spec
          spec_fieldMatches_def)
next
  case (Arr vs)
  then show ?thesis
    by (simp only: SearchElement.case matchKeywordToSynonym.simps matchString_spec
          spec_fieldMatches_def list_ex_iff)
qed

lemma synonymLoop_Cons:
  "synonymLoop sm w relax b (syn # rest) =
     (if spec_fieldMatches relax sm w syn
      then \<lparr>found = True, synonym = (syn \<noteq> w \<and> \<not> fullMatch sm)\<rparr>
      else synonymLoop sm w relax (syn \<noteq> w \<and> \<not> fullMatch sm) rest)"
  by (simp only: synonymLoop.simps Let_def compare_step)

lemma synonymLoop_found:
  "found (synonymLoop sm w relax b syns) = (\<exists>syn\<in>set syns. spec_fieldMatches relax sm w syn)"
  by (induction syns arbitrary: b) (simp_all add: synonymLoop_Cons del: synonymLoop.simps(2))

lemma synonymLoop_synonym:
  "find (spec_fieldMatches relax sm w) syns = Some syn \<Longrightarrow>
   synonym (synonymLoop sm w relax b syns) = spec_synonymHit sm syn w"
  by (induction syns arbitrary: b)
     (auto simp: synonymLoop_Cons spec_synonymHit_def simp del: synonymLoop.simps(2)
           split: if_splits)

text \<open>
  C3. A field with a value is found exactly when some synonym of the list matches it in
  the mode the specification describes (substring containment under the relaxation
  flag; otherwise whole words when the field mandates them or the synonym is a synonym
  hit, substring containment else; any element of an array), and the hit is reported as
  a synonym hit exactly when the first synonym that matches differs from the query word
  and the field does not set \<^verbatim>\<open>fullMatch\<close>. A field whose value is the empty string is
  never compared.
\<close>

theorem isKeyWordFoundInSynonym_spec:
  "found (isKeyWordFoundInSynonym sm syns w relax)
     = (searchElement sm \<noteq> Str [] \<and> (\<exists>syn\<in>set syns. spec_fieldMatches relax sm w syn))
   \<and> (\<forall>syn. searchElement sm \<noteq> Str [] \<and> find (spec_fieldMatches relax sm w) syns = Some syn \<longrightarrow>
         synonym (isKeyWordFoundInSynonym sm syns w relax) = spec_synonymHit sm syn w)"
  by (simp add: isKeyWordFoundInSynonym_def synonymLoop_found synonymLoop_synonym)

text \<open>
  The field \<^verbatim>\<open>[Auto Versicherung, KFZ]\<close> and the query word \<^verbatim>\<open>wagen\<close> with the synonym
  \<^verbatim>\<open>auto\<close>: the word itself is not there, the synonym is a word of the first element.
\<close>

theorem isKeyWordFoundInSynonym_spec_witness:
  "searchElement exampleField \<noteq> Str []
   \<and> find (spec_fieldMatches False exampleField ''wagen'') [''wagen'', ''auto''] = Some ''auto''
   \<and> found (isKeyWordFoundInSynonym exampleField [''wagen'', ''auto''] ''wagen'' False)
   \<and> synonym (isKeyWordFoundInSynonym exampleField [''wagen'', ''auto''] ''wagen'' False)"
proof -
  have v: "searchElement exampleField \<noteq> Str []"
    by (simp add: exampleField_def)
  have f: "find (spec_fieldMatches False exampleField ''wagen'') [''wagen'', ''auto''] = Some ''auto''"
    by (simp add: spec_fieldMatches_def spec_comparison_def spec_synonymHit_def spec_wholeWord_def
          spec_substring_def exampleField_def toLowerCase_def lowerChar_def sublist_code)
  have h: "spec_synonymHit exampleField ''auto'' ''wagen''"
    by (simp add: spec_synonymHit_def exampleField_def)
  have "spec_fieldMatches False exampleField ''wagen'' ''auto''"
    by (simp add: spec_fieldMatches_def spec_comparison_def spec_synonymHit_def spec_wholeWord_def
          exampleField_def toLowerCase_def lowerChar_def)
  then have m: "\<exists>syn\<in>set [''wagen'', ''auto'']. spec_fieldMatches False exampleField ''wagen'' syn"
    by simp
  from isKeyWordFoundInSynonym_spec [of exampleField "[''wagen'', ''auto'']" "''wagen''" False]
    v f h m
  show ?thesis by blast
qed

subsection \<open>Scoring\<close>

lemma addRank_fold:
  "fold (\<lambda>el m. if found (isKeyWordFoundInSynonym el syns w p)
                 then addRank (if synonym (isKeyWordFoundInSynonym el syns w p)
                               then synonymRank el else rank el) m
                 else m)
        criteria (m\<lparr>searchRank := Some r\<rparr>)
   = m\<lparr>searchRank := Some (r + (\<Sum>el\<leftarrow>filter (\<lambda>el. found (isKeyWordFoundInSynonym el syns w p)) criteria.
                                 if synonym (isKeyWordFoundInSynonym el syns w p)
                                 then synonymRank el else rank el))\<rparr>"
proof (induction criteria arbitrary: r)
  case Nil
  show ?case by simp
next
  case (Cons el rest)
  show ?case
    using Cons.IH by (simp add: addRank_def ac_simps)
qed

lemma getSearchRank_eq:
  "getSearchRank gsc m syns w p =
     m\<lparr>searchRank := Some (\<Sum>el\<leftarrow>filter (\<lambda>el. found (isKeyWordFoundInSynonym el syns w p)) (gsc m).
                              if synonym (isKeyWordFoundInSynonym el syns w p)
                              then synonymRank el else rank el)\<rparr>"
  by (simp add: getSearchRank_def addRank_fold Let_def)

lemma sortDescending_sorted:
  "sorted_wrt (\<lambda>a b. key a \<ge> key b) (sortDescending key xs)"
proof -
  have "sorted (map (\<lambda>x. - key x) (sort_key (\<lambda>x. - key x) xs))"
    by (rule sorted_sort_key)
  then show ?thesis
    by (simp add: sortDescending_def sorted_map)
qed

lemma sortDescending_mset: "mset (sortDescending key xs) = mset xs"
  by (simp add: sortDescending_def)

lemma sortDescending_set: "set (sortDescending key xs) = set xs"
  by (simp add: sortDescending_def)

text \<open>Records of equal rank keep the order of the cache.\<close>

lemma sortDescending_stable:
  "filter (\<lambda>x. key x = k) (sortDescending key xs) = filter (\<lambda>x. key x = k) xs"
  using sort_key_stable [of "\<lambda>x. - key x" "- k" xs]
  by (simp add: sortDescending_def)

lemma searchForSingleWord_scoring:
  assumes "word \<noteq> []"
  shows "searchForSingleWord gsc word p s =
     (\<lparr>search = joinComma (getSynonyms (synonymsList s) word),
       foundItems = length (filter (\<lambda>m. rankOf m > 0)
          (map (\<lambda>m. getSearchRank gsc m (getSynonyms (synonymsList s) word) word p) (rawData s))),
       results = sortDescending rankOf (filter (\<lambda>m. rankOf m > 0)
          (map (\<lambda>m. getSearchRank gsc m (getSynonyms (synonymsList s) word) word p) (rawData s)))\<rparr>,
      s\<lparr>rawData := map (\<lambda>m. getSearchRank gsc m (getSynonyms (synonymsList s) word) word p) (rawData s),
        searchLog := searchLog s @ [(word, p)]\<rparr>)"
  using assms by (simp add: searchForSingleWord_def Let_def sortDescending_def)

text \<open>
  C2, as the code has it. The rank \<^verbatim>\<open>getSearchRank\<close> gives a record is the sum, over
  the declared fields that are found, of \<^verbatim>\<open>synonymRank\<close> when the hit is a synonym hit
  and of \<^verbatim>\<open>rank\<close> otherwise; nothing else of the record changes; a record no field
  of which is found has rank 0. For a non-empty word \<^verbatim>\<open>searchForSingleWord\<close> scores
  every cached record, returns exactly the scored records of positive rank, so none of
  rank 0, in descending order of rank, and counts them. The empty word is not part of
  the statement: nothing is scored for it.
\<close>

theorem searchRank_additive:
  "searchRank (getSearchRank gsc m syns w p)
     = Some (\<Sum>el\<leftarrow>filter (\<lambda>el. found (isKeyWordFoundInSynonym el syns w p)) (gsc m).
               if synonym (isKeyWordFoundInSynonym el syns w p) then synonymRank el else rank el)
   \<and> content (getSearchRank gsc m syns w p) = content m
   \<and> ((\<forall>el\<in>set (gsc m). \<not> found (isKeyWordFoundInSynonym el syns w p)) \<longrightarrow>
         searchRank (getSearchRank gsc m syns w p) = Some 0)
   \<and> (word \<noteq> [] \<longrightarrow>
        (let scored = map (\<lambda>m. getSearchRank gsc m (getSynonyms (synonymsList s) word) word p)
                          (rawData s);
             res = results (fst (searchForSingleWord gsc word p s))
         in mset res = filter_mset (\<lambda>m. rankOf m > 0) (mset scored)
            \<and> (\<forall>m\<in>set scored. searchRank m = Some 0 \<longrightarrow> m \<notin> set res)
            \<and> sorted_wrt (\<lambda>a b. rankOf a \<ge> rankOf b) res
            \<and> (\<forall>m\<in>set res. searchRank m = Some (rankOf m))
            \<and> foundItems (fst (searchForSingleWord gsc word p s)) = length res
            \<and> rawData (snd (searchForSingleWord gsc word p s)) = scored))"
proof -
  let ?syns = "getSynonyms (synonymsList s) word"
  let ?scored = "map (\<lambda>m. getSearchRank gsc m ?syns word p) (rawData s)"
  let ?res = "sortDescending rankOf (filter (\<lambda>m. rankOf m > 0) ?scored)"
  have rank: "searchRank (getSearchRank gsc m syns w p)
     = Some (\<Sum>el\<leftarrow>filter (\<lambda>el. found (isKeyWordFoundInSynonym el syns w p)) (gsc m).
               if synonym (isKeyWordFoundInSynonym el syns w p) then synonymRank el else rank el)"
    by (simp add: getSearchRank_eq)
  have cont: "content (getSearchRank gsc m syns w p) = content m"
    by (simp add: getSearchRank_eq)
  have zero: "(\<forall>el\<in>set (gsc m). \<not> found (isKeyWordFoundInSynonym el syns w p)) \<longrightarrow>
         searchRank (getSearchRank gsc m syns w p) = Some 0"
  proof
    assume "\<forall>el\<in>set (gsc m). \<not> found (isKeyWordFoundInSynonym el syns w p)"
    then have "filter (\<lambda>el. found (isKeyWordFoundInSynonym el syns w p)) (gsc m) = []"
      by (simp add: filter_empty_conv)
    then show "searchRank (getSearchRank gsc m syns w p) = Some 0" by (simp add: rank)
  qed
  have pass1: "mset ?res = filter_mset (\<lambda>m. rankOf m > 0) (mset ?scored)"
    by (simp only: sortDescending_mset mset_filter)
  have pass2: "\<forall>m\<in>set ?scored. searchRank m = Some 0 \<longrightarrow> m \<notin> set ?res"
    by (simp add: sortDescending_set rankOf_def)
  have pass3: "sorted_wrt (\<lambda>a b. rankOf a \<ge> rankOf b) ?res"
    by (rule sortDescending_sorted)
  have pass4: "\<forall>m\<in>set ?res. searchRank m = Some (rankOf m)"
    by (auto simp: sortDescending_set getSearchRank_eq rankOf_def)
  have run: "results (fst (searchForSingleWord gsc word p s)) = ?res"
      "foundItems (fst (searchForSingleWord gsc word p s)) = length ?res"
      "rawData (snd (searchForSingleWord gsc word p s)) = ?scored" if "word \<noteq> []"
    using that by (simp_all add: searchForSingleWord_def Let_def)
  have last: "word \<noteq> [] \<longrightarrow>
        (let scored = ?scored; res = results (fst (searchForSingleWord gsc word p s))
         in mset res = filter_mset (\<lambda>m. rankOf m > 0) (mset scored)
            \<and> (\<forall>m\<in>set scored. searchRank m = Some 0 \<longrightarrow> m \<notin> set res)
            \<and> sorted_wrt (\<lambda>a b. rankOf a \<ge> rankOf b) res
            \<and> (\<forall>m\<in>set res. searchRank m = Some (rankOf m))
            \<and> foundItems (fst (searchForSingleWord gsc word p s)) = length res
            \<and> rawData (snd (searchForSingleWord gsc word p s)) = scored)"
  proof
    assume w: "word \<noteq> []"
    show "let scored = ?scored; res = results (fst (searchForSingleWord gsc word p s))
         in mset res = filter_mset (\<lambda>m. rankOf m > 0) (mset scored)
            \<and> (\<forall>m\<in>set scored. searchRank m = Some 0 \<longrightarrow> m \<notin> set res)
            \<and> sorted_wrt (\<lambda>a b. rankOf a \<ge> rankOf b) res
            \<and> (\<forall>m\<in>set res. searchRank m = Some (rankOf m))
            \<and> foundItems (fst (searchForSingleWord gsc word p s)) = length res
            \<and> rawData (snd (searchForSingleWord gsc word p s)) = scored"
      unfolding Let_def run [OF w]
      by (intro conjI pass1 pass2 pass3 pass4 refl)
  qed
  show ?thesis
    by (rule conjI rank cont zero last)+
qed

text \<open>
  The installation, asked for \<^verbatim>\<open>auto\<close>: the page that has the word in both fields
  scores 3 + 2, the page that has only the synonym \<^verbatim>\<open>pkw\<close> scores the synonym weight 1,
  the third page matches nowhere, scores 0 and is left out.
\<close>

theorem searchRank_additive_witness:
  "\<not> found (isKeyWordFoundInSynonym
        \<lparr>searchElement = Str ''Impressum'', fullMatch = False, rank = 3, synonymRank = 1\<rparr>
        [''auto'', ''pkw''] ''auto'' False)
   \<and> \<not> found (isKeyWordFoundInSynonym
        \<lparr>searchElement = Str ''legal notice'', fullMatch = False, rank = 2, synonymRank = 1\<rparr>
        [''auto'', ''pkw''] ''auto'' False)
   \<and> ''auto'' \<noteq> []
   \<and> searchRank (getSearchRank exampleCriteria
         \<lparr>searchRank = None, content = (''Impressum'', ''legal notice'')\<rparr>
         [''auto'', ''pkw''] ''auto'' False) = Some 0
   \<and> results (fst (searchForSingleWord exampleCriteria ''auto'' False exampleService))
       = [\<lparr>searchRank = Some 5, content = (''Auto'', ''auto insurance'')\<rparr>,
          \<lparr>searchRank = Some 1, content = (''PKW Tarife'', ''rates'')\<rparr>]
   \<and> sorted_wrt (\<lambda>a b. rankOf a \<ge> rankOf b)
        (results (fst (searchForSingleWord exampleCriteria ''auto'' False exampleService)))"
proof -
  let ?m = "\<lparr>searchRank = None, content = (''Impressum'', ''legal notice'')\<rparr>"
  have n1: "\<not> found (isKeyWordFoundInSynonym
        \<lparr>searchElement = Str ''Impressum'', fullMatch = False, rank = 3, synonymRank = 1\<rparr>
        [''auto'', ''pkw''] ''auto'' False)"
    by code_simp
  have n2: "\<not> found (isKeyWordFoundInSynonym
        \<lparr>searchElement = Str ''legal notice'', fullMatch = False, rank = 2, synonymRank = 1\<rparr>
        [''auto'', ''pkw''] ''auto'' False)"
    by code_simp
  from n1 n2 have none: "\<forall>el\<in>set (exampleCriteria ?m).
       \<not> found (isKeyWordFoundInSynonym el [''auto'', ''pkw''] ''auto'' False)"
    by (simp add: exampleCriteria_def)
  have word: "''auto'' \<noteq> []" by simp
  have res: "results (fst (searchForSingleWord exampleCriteria ''auto'' False exampleService))
       = [\<lparr>searchRank = Some 5, content = (''Auto'', ''auto insurance'')\<rparr>,
          \<lparr>searchRank = Some 1, content = (''PKW Tarife'', ''rates'')\<rparr>]"
    by code_simp
  note inst = searchRank_additive [of exampleCriteria ?m "[''auto'', ''pkw'']" "''auto''" False
      "''auto''" exampleService, unfolded Let_def]
  from inst none
  have zero: "searchRank (getSearchRank exampleCriteria ?m [''auto'', ''pkw''] ''auto'' False) = Some 0"
    by blast
  from inst word
  have sorted: "sorted_wrt (\<lambda>a b. rankOf a \<ge> rankOf b)
        (results (fst (searchForSingleWord exampleCriteria ''auto'' False exampleService)))"
    by blast
  from n1 n2 word zero res sorted show ?thesis
    by (intro conjI)
qed

text \<open>
  The claim as it is written fails for the empty word, which a blank query gives: after
  the query \<^verbatim>\<open>auto\<close> has left its ranks on the cache, the query of one blank returns
  the whole cache in cache order. The page of rank 0 is among the results, and the
  ranks 0, 1, 5 ascend.
\<close>

theorem searchForSingleWord_blank_counterexample:
  "toLowerCase (trim '' '') = []
   \<and> results (fst (searchForSingleWord exampleCriteria [] False
         (snd (getSearchResult exampleCriteria (Some ''auto'') exampleService))))
       = [\<lparr>searchRank = Some 0, content = (''Impressum'', ''legal notice'')\<rparr>,
          \<lparr>searchRank = Some 1, content = (''PKW Tarife'', ''rates'')\<rparr>,
          \<lparr>searchRank = Some 5, content = (''Auto'', ''auto insurance'')\<rparr>]
   \<and> results (fst (getSearchResult exampleCriteria (Some '' '')
         (snd (getSearchResult exampleCriteria (Some ''auto'') exampleService))))
       = [\<lparr>searchRank = Some 0, content = (''Impressum'', ''legal notice'')\<rparr>,
          \<lparr>searchRank = Some 1, content = (''PKW Tarife'', ''rates'')\<rparr>,
          \<lparr>searchRank = Some 5, content = (''Auto'', ''auto insurance'')\<rparr>]
   \<and> rankOf \<lparr>searchRank = Some 0, content = (''Impressum'', ''legal notice'')\<rparr>
       < rankOf \<lparr>searchRank = Some 1, content = (''PKW Tarife'', ''rates'')\<rparr>"
proof -
  have a: "toLowerCase (trim '' '') = []"
    by code_simp
  have b: "results (fst (searchForSingleWord exampleCriteria [] False
         (snd (getSearchResult exampleCriteria (Some ''auto'') exampleService))))
       = [\<lparr>searchRank = Some 0, content = (''Impressum'', ''legal notice'')\<rparr>,
          \<lparr>searchRank = Some 1, content = (''PKW Tarife'', ''rates'')\<rparr>,
          \<lparr>searchRank = Some 5, content = (''Auto'', ''auto insurance'')\<rparr>]"
    by code_simp
  have c: "results (fst (getSearchResult exampleCriteria (Some '' '')
         (snd (getSearchResult exampleCriteria (Some ''auto'') exampleService))))
       = [\<lparr>searchRank = Some 0, content = (''Impressum'', ''legal notice'')\<rparr>,
          \<lparr>searchRank = Some 1, content = (''PKW Tarife'', ''rates'')\<rparr>,
          \<lparr>searchRank = Some 5, content = (''Auto'', ''auto insurance'')\<rparr>]"
    by code_simp
  have d: "rankOf \<lparr>searchRank = Some 0, content = (''Impressum'', ''legal notice'')\<rparr>
       < rankOf \<lparr>searchRank = Some 1, content = (''PKW Tarife'', ''rates'')\<rparr>"
    by (simp add: rankOf_def)
  from a b c d show ?thesis
    by (intro conjI)
qed

subsection \<open>The tiers of a query\<close>

lemma afterWords_simps [simp]:
  "afterWords gsc [] s = s"
  "afterWords gsc (w # ws) s = afterWords gsc ws (snd (searchForSingleWord gsc w False s))"
  by (simp_all add: afterWords_def)

lemma wordHits_simps:
  "wordHits gsc s (w # ws) 0 = (foundItems (fst (searchForSingleWord gsc w False s)) > 0)"
  "wordHits gsc s (w # ws) (Suc k) = wordHits gsc (snd (searchForSingleWord gsc w False s)) ws k"
  by (simp_all add: wordHits_def)

lemma wordHits_append:
  "j < length a \<Longrightarrow> wordHits gsc s (a @ b) j = wordHits gsc s a j"
  by (simp add: wordHits_def nth_append)



lemma secondLevel_Cons:
  "secondLevel gsc (w # ws) s =
     (if foundItems (fst (searchForSingleWord gsc w False s)) > 0
      then (Some (fst (searchForSingleWord gsc w False s)),
            (snd (searchForSingleWord gsc w False s))
              \<lparr>console := console (snd (searchForSingleWord gsc w False s)) @ [InfoUsedSecond w]\<rparr>)
      else secondLevel gsc ws (snd (searchForSingleWord gsc w False s)))"
  by (simp add: case_prod_beta)


text \<open>The loop when the \<open>k\<close>-th word is the first with a hit: the words after it are not searched.\<close>

lemma secondLevel_hit:
  "k < length ws \<Longrightarrow> wordHits gsc s ws k \<Longrightarrow> (\<forall>j<k. \<not> wordHits gsc s ws j) \<Longrightarrow>
   secondLevel gsc ws s =
     (Some (fst (searchForSingleWord gsc (ws ! k) False (afterWords gsc (take k ws) s))),
      (snd (searchForSingleWord gsc (ws ! k) False (afterWords gsc (take k ws) s)))
        \<lparr>console := console (snd (searchForSingleWord gsc (ws ! k) False (afterWords gsc (take k ws) s)))
                      @ [InfoUsedSecond (ws ! k)]\<rparr>)"
proof (induction ws arbitrary: s k)
  case Nil
  then show ?case by simp
next
  case (Cons w ws)
  show ?case
  proof (cases k)
    case 0
    with Cons.prems(2) show ?thesis
      by (simp add: wordHits_simps secondLevel_Cons del: secondLevel.simps)
  next
    case (Suc k')
    with Cons.prems have h0: "\<not> wordHits gsc s (w # ws) 0" by blast
    let ?s' = "snd (searchForSingleWord gsc w False s)"
    have a: "k' < length ws" using Cons.prems(1) Suc by simp
    have b: "wordHits gsc ?s' ws k'" using Cons.prems(2) Suc by (simp add: wordHits_simps)
    have c: "\<forall>j<k'. \<not> wordHits gsc ?s' ws j"
    proof (intro allI impI)
      fix j assume "j < k'"
      then have "\<not> wordHits gsc s (w # ws) (Suc j)" using Cons.prems(3) Suc by simp
      then show "\<not> wordHits gsc ?s' ws j" by (simp add: wordHits_simps)
    qed
    from h0 Cons.IH [OF a b c] Suc show ?thesis
      by (simp add: wordHits_simps secondLevel_Cons del: secondLevel.simps)
  qed
qed

lemma getSearchResult_unfold:
  assumes "q \<noteq> []"
  shows "getSearchResult gsc (Some q) s =
     (let word = toLowerCase (trim q);
          first = fst (searchForSingleWord gsc word False s);
          s1 = snd (searchForSingleWord gsc word False s);
          second = (if foundItems first = 0 \<and> length (split (CHR '' '') word) > 1
                    then secondLevel gsc (sortDescending (\<lambda>w. int (length w)) (split (CHR '' '') word)) s1
                    else (None, s1))
      in case fst second of
           Some r \<Rightarrow> (r, snd second)
         | None \<Rightarrow> if length (results first) = 0
                   then searchForSingleWord gsc word True (snd second)
                   else (first, snd second))"
  using assms
  by (simp add: getSearchResult_def Let_def case_prod_beta split: option.splits prod.splits)





subsection \<open>Flattening\<close>

declare preorder.simps [simp del]

declare setUpData.simps [simp del]

lemma spec_flatten_Nil [simp]: "spec_flatten g ty [] = []"
  by (simp add: spec_flatten_def)

lemma spec_flatten_Cons:
  "spec_flatten g ty (n # ns) =
     (case children n of None \<Rightarrow> [] | Some cs \<Rightarrow> g n ty # spec_flatten g ty cs)
     @ spec_flatten g ty ns"
  by (subst spec_flatten_def, subst concat.simps map_append list.map, subst preorder.simps)
     (simp add: spec_flatten_def split: option.splits)

lemma setUpData_Some:
  "setUpData g ty (Some nodes) s =
     fold (\<lambda>child st. case children child of None \<Rightarrow> st
             | Some cs \<Rightarrow> setUpData g ty (Some cs) (st\<lparr>rawData := rawData st @ [g child ty]\<rparr>))
          nodes s"
  by (subst setUpData.simps) simp

lemma setUpData_None:
  "setUpData g ty None s = s\<lparr>console := console s @ [WarnSetUpDataFailed]\<rparr>"
  by (subst setUpData.simps) simp

text \<open>The loop over the nodes of one level, given what the recursive calls do.\<close>

lemma fold_children:
  fixes s :: "('a, 'x) service"
  assumes "\<forall>child\<in>set nodes. \<forall>cs (st :: ('a, 'x) service). children child = Some cs \<longrightarrow>
        setUpData g ty (Some cs) st = st\<lparr>rawData := rawData st @ spec_flatten g ty cs\<rparr>"
  shows "fold (\<lambda>child st. case children child of None \<Rightarrow> st
             | Some cs \<Rightarrow> setUpData g ty (Some cs) (st\<lparr>rawData := rawData st @ [g child ty]\<rparr>))
           nodes s
         = s\<lparr>rawData := rawData s @ spec_flatten g ty nodes\<rparr>"
  using assms
proof (induction nodes arbitrary: s)
  case Nil
  show ?case by simp
next
  case (Cons n ns)
  from Cons.prems have tl: "\<forall>child\<in>set ns. \<forall>cs (st :: ('a, 'x) service). children child = Some cs \<longrightarrow>
        setUpData g ty (Some cs) st = st\<lparr>rawData := rawData st @ spec_flatten g ty cs\<rparr>"
    by simp
  note rest = Cons.IH [OF tl]
  show ?case
  proof (cases "children n")
    case None
    then show ?thesis by (simp add: rest spec_flatten_Cons)
  next
    case (Some cs)
    with Cons.prems
    have hd: "setUpData g ty (Some cs) st = st\<lparr>rawData := rawData st @ spec_flatten g ty cs\<rparr>"
      for st :: "('a, 'x) service"
      by simp
    show ?thesis
      by (simp add: Some hd rest spec_flatten_Cons)
  qed
qed

lemma setUpData_flatten:
  fixes s :: "('a, 'x) service"
  shows "setUpData g ty (Some nodes) s = s\<lparr>rawData := rawData s @ spec_flatten g ty nodes\<rparr>"
proof (induction "size_list size nodes" arbitrary: nodes s rule: less_induct)
  case less
  show ?case
  proof (subst setUpData_Some, rule fold_children, intro ballI allI impI)
    fix child cs and st :: "('a, 'x) service"
    assume "child \<in> set nodes" and "children child = Some cs"
    then have "size_list size cs < size_list size nodes" by (rule children_smaller)
    then show "setUpData g ty (Some cs) st = st\<lparr>rawData := rawData st @ spec_flatten g ty cs\<rparr>"
      by (rule less)
  qed
qed

text \<open>
  C7, as the code has it. \<^verbatim>\<open>setUpData\<close> appends to the cache, and changes nothing else:
  the records of exactly the nodes whose \<^verbatim>\<open>children\<close> relation is there (an empty one
  counts), in pre-order, every node transformed when it is met and before its children.
  A node without the relation gives no record and is not descended into; a falsy
  argument gives a warning and no record.
\<close>

theorem setUpData_preorder:
  fixes s :: "('a, 'x) service"
  shows "setUpData g ty (Some nodes) s
           = s\<lparr>rawData := rawData s
                   @ map (\<lambda>n. g n ty) (filter (\<lambda>n. children n \<noteq> None) (concat (map preorder nodes)))\<rparr>
       \<and> setUpData g ty None s = s\<lparr>console := console s @ [WarnSetUpDataFailed]\<rparr>
       \<and> preorder (RawServerData x None) = [RawServerData x None]
       \<and> preorder (RawServerData x (Some cs))
           = RawServerData x (Some cs) # concat (map preorder cs)"
  by (simp add: setUpData_flatten setUpData_None spec_flatten_def preorder.simps [of "RawServerData x None"]
        preorder.simps [of "RawServerData x (Some cs)"])

text \<open>
  A tree with a root, an inner node \<^verbatim>\<open>a\<close> with a leaf, a node \<^verbatim>\<open>b\<close> without the
  relation and a node \<^verbatim>\<open>c\<close> with an empty one.
\<close>

theorem setUpData_preorder_witness:
  "rawData (setUpData exampleElement None (Some exampleTree) blankService)
     = [\<lparr>searchRank = None, content = ''root''\<rparr>, \<lparr>searchRank = None, content = ''a''\<rparr>,
        \<lparr>searchRank = None, content = ''c''\<rparr>]"
proof -
  have "map (\<lambda>n. exampleElement n None)
          (filter (\<lambda>n. children n \<noteq> None) (concat (map preorder exampleTree)))
        = [\<lparr>searchRank = None, content = ''root''\<rparr>, \<lparr>searchRank = None, content = ''a''\<rparr>,
           \<lparr>searchRank = None, content = ''c''\<rparr>]"
    by (simp add: exampleTree_def exampleElement_def preorder.simps)
  with setUpData_preorder [of exampleElement None exampleTree blankService, THEN conjunct1]
  show ?thesis by (simp add: blankService_def)
qed

text \<open>
  The claim as it is written fails on a node with an empty \<^verbatim>\<open>children\<close> array: it has
  no child and yet gives a record.
\<close>

theorem setUpData_childless_counterexample:
  "\<not> spec_hasChild (RawServerData ''leaf'' (Some []))
   \<and> rawData (setUpData exampleElement None (Some [RawServerData ''leaf'' (Some [])]) blankService)
       = [\<lparr>searchRank = None, content = ''leaf''\<rparr>]"
  by (simp add: spec_hasChild_def setUpData_flatten spec_flatten_Cons exampleElement_def
        blankService_def)

subsection \<open>Fetching\<close>

lemma isValid_None [simp]: "\<not> isValid None"
  by (simp add: isValid_def)

lemma fetchLoop_Cons:
  "fetchLoop fetch i (url # urls) (data, su, con) =
     (case fetch i url of
        Parsed d \<Rightarrow> if isValid d then (True, d, url, con @ attemptLines fetch i url)
                    else fetchLoop fetch (Suc i) urls (d, url, con @ attemptLines fetch i url)
      | Throws \<Rightarrow> if isValid data then (True, data, su, con @ attemptLines fetch i url)
                  else fetchLoop fetch (Suc i) urls (data, su, con @ attemptLines fetch i url))"
  by (simp add: attemptLines_def split: fetched.splits)

text \<open>
  When no mirror gives a valid response the loop tries them all, in order, and what it
  keeps in \<^verbatim>\<open>data\<close> is not valid.
\<close>

lemma fetchLoop_fail:
  "\<not> isValid data \<Longrightarrow> (\<forall>j<length urls. \<not> validResponse (fetch (i + j) (urls ! j))) \<Longrightarrow>
   \<exists>d u. \<not> isValid d \<and>
     fetchLoop fetch i urls (data, su, con)
       = (False, d, u, con @ concat (map (\<lambda>j. attemptLines fetch (i + j) (urls ! j)) [0..<length urls]))"
proof (induction urls arbitrary: i data su con)
  case Nil
  then show ?case by simp
next
  case (Cons url urls)
  from Cons.prems(2) have h0: "\<not> validResponse (fetch i url)" by fastforce
  have rest: "\<forall>j<length urls. \<not> validResponse (fetch (Suc i + j) (urls ! j))"
  proof (intro allI impI)
    fix j assume "j < length urls"
    then have "\<not> validResponse (fetch (i + Suc j) ((url # urls) ! Suc j))"
      using Cons.prems(2) by (metis Suc_less_eq length_Cons)
    then show "\<not> validResponse (fetch (Suc i + j) (urls ! j))" by simp
  qed
  have shift: "concat (map (\<lambda>j. attemptLines fetch (i + j) ((url # urls) ! j)) [0..<length (url # urls)])
      = attemptLines fetch i url @ concat (map (\<lambda>j. attemptLines fetch (Suc i + j) (urls ! j)) [0..<length urls])"
    by (simp only: length_Cons map_upt_Suc) simp
  show ?case
  proof (cases "fetch i url")
    case Throws
    from Cons.IH [OF Cons.prems(1) rest, of su "con @ attemptLines fetch i url"] Throws Cons.prems(1)
    show ?thesis
      by (simp only: fetchLoop_Cons shift fetched.case if_False append_assoc)
  next
    case (Parsed d)
    with h0 have nv: "\<not> isValid d" by (simp add: validResponse_def)
    from Cons.IH [OF nv rest, of url "con @ attemptLines fetch i url"] Parsed nv
    show ?thesis
      by (simp only: fetchLoop_Cons shift fetched.case if_False append_assoc)
  qed
qed

text \<open>
  When the \<open>k\<close>-th mirror is the first with a valid response, the loop tries the mirrors
  up to it, in order, and leaves with its body; the mirrors after it are not tried.
\<close>

lemma fetchLoop_hit:
  "\<not> isValid data \<Longrightarrow> k < length urls \<Longrightarrow> fetch (i + k) (urls ! k) = Parsed d \<Longrightarrow> isValid d \<Longrightarrow>
   (\<forall>j<k. \<not> validResponse (fetch (i + j) (urls ! j))) \<Longrightarrow>
   fetchLoop fetch i urls (data, su, con)
     = (True, d, urls ! k, con @ concat (map (\<lambda>j. attemptLines fetch (i + j) (urls ! j)) [0..<Suc k]))"
proof (induction urls arbitrary: i k data su con)
  case Nil
  then show ?case by simp
next
  case (Cons url urls)
  show ?case
  proof (cases k)
    case 0
    with Cons.prems show ?thesis
      by (simp add: fetchLoop_Cons del: fetchLoop.simps)
  next
    case (Suc k')
    with Cons.prems(5) have h0: "\<not> validResponse (fetch i url)" by fastforce
    have a: "k' < length urls" using Cons.prems(2) Suc by simp
    have b: "fetch (Suc i + k') (urls ! k') = Parsed d" using Cons.prems(3) Suc by simp
    have c: "\<forall>j<k'. \<not> validResponse (fetch (Suc i + j) (urls ! j))"
    proof (intro allI impI)
      fix j assume "j < k'"
      then have "\<not> validResponse (fetch (i + Suc j) ((url # urls) ! Suc j))"
        using Cons.prems(5) Suc by (metis Suc_less_eq)
      then show "\<not> validResponse (fetch (Suc i + j) (urls ! j))" by simp
    qed
    have shift: "concat (map (\<lambda>j. attemptLines fetch (i + j) ((url # urls) ! j)) [0..<Suc k])
      = attemptLines fetch i url @ concat (map (\<lambda>j. attemptLines fetch (Suc i + j) (urls ! j)) [0..<Suc k'])"
      unfolding Suc by (simp only: map_upt_Suc [of _ "Suc k'"]) simp
    have nth: "(url # urls) ! k = urls ! k'" using Suc by simp
    show ?thesis
    proof (cases "fetch i url")
      case Throws
      from Cons.IH [OF Cons.prems(1) a b Cons.prems(4) c, of su "con @ attemptLines fetch i url"]
        Throws Cons.prems(1)
      show ?thesis
        by (simp only: fetchLoop_Cons shift nth fetched.case if_False append_assoc)
    next
      case (Parsed d0)
      with h0 have nv: "\<not> isValid d0" by (simp add: validResponse_def)
      from Cons.IH [OF nv a b Cons.prems(4) c, of url "con @ attemptLines fetch i url"] Parsed nv
      show ?thesis
        by (simp only: fetchLoop_Cons shift nth fetched.case if_False append_assoc)
    qed
  qed
qed

lemma fold_setUpData:
  fixes s :: "('a, 'x) service"
  shows "fold (\<lambda>startChild st. setUpData g ty startChild st) pl s
     = s\<lparr>rawData := rawData s @ spec_flattenPathList g ty pl,
          console := console s @ map (\<lambda>_. WarnSetUpDataFailed) (filter (\<lambda>startChild. startChild = None) pl)\<rparr>"
proof (induction pl arbitrary: s)
  case Nil
  show ?case by (simp add: spec_flattenPathList_def)
next
  case (Cons startChild pl)
  show ?case
  proof (cases startChild)
    case None
    then show ?thesis
      by (simp add: Cons.IH setUpData_None spec_flattenPathList_def)
  next
    case (Some nodes)
    then show ?thesis
      by (simp add: Cons.IH setUpData_flatten spec_flattenPathList_def)
  qed
qed

text \<open>A single URL given as a string is tried character by character.\<close>

lemma spreadUrls_string: "spreadUrls (OneUrl ''http'') = [''h'', ''t'', ''t'', ''p'']"
  by (simp add: spreadUrls_def)

text \<open>
  C5. If every mirror fails (the request throws, or the response has no non-empty
  \<^verbatim>\<open>pathList\<close>), \<^verbatim>\<open>getServerData\<close> changes two fields only: the console, which
  shows one attempt per mirror in order and the failure, and the last refresh outcome,
  which is Error at the time of the clock. The cache is what it was.
\<close>

theorem getServerData_total_failure:
  fixes s :: "('a, 'x) service"
  assumes "\<forall>j<length (spreadUrls (getSearchUrl cfg)).
             \<not> validResponse (fetch j (spreadUrls (getSearchUrl cfg) ! j))"
  shows "getServerData g getSearchUrl fetch now cfg s
     = s\<lparr>console := console s
              @ concat (map (\<lambda>j. attemptLines fetch j (spreadUrls (getSearchUrl cfg) ! j))
                          [0..<length (spreadUrls (getSearchUrl cfg))])
              @ [WarnFetchingFailed],
          lastCacheUpdate := Some \<lparr>time = now, status = Error\<rparr>\<rparr>"
proof -
  from assms have "\<forall>j<length (spreadUrls (getSearchUrl cfg)).
             \<not> validResponse (fetch (0 + j) (spreadUrls (getSearchUrl cfg) ! j))" by simp
  from fetchLoop_fail [OF isValid_None this, of "[]" "console s"]
  obtain d u where "fetchLoop fetch 0 (spreadUrls (getSearchUrl cfg)) (None, [], console s)
       = (False, d, u, console s @ concat (map (\<lambda>j. attemptLines fetch (0 + j) (spreadUrls (getSearchUrl cfg) ! j))
                          [0..<length (spreadUrls (getSearchUrl cfg))]))"
    by blast
  then show ?thesis
    by (simp add: getServerData_def Let_def)
qed

text \<open>
  Three mirrors: the first throws, the second answers without \<^verbatim>\<open>pathList\<close>, the third
  with an empty one. The cache keeps its record.
\<close>

theorem getServerData_total_failure_witness:
  "\<not> validResponse (brokenMirrors 0 ''http://a'')
   \<and> \<not> validResponse (brokenMirrors 1 ''http://b'')
   \<and> \<not> validResponse (brokenMirrors 2 ''http://c'')
   \<and> rawData (getServerData exampleElement threeMirrors brokenMirrors ''t1'' None oldService)
       = [\<lparr>searchRank = None, content = ''old''\<rparr>]
   \<and> lastCacheUpdate (getServerData exampleElement threeMirrors brokenMirrors ''t1'' None oldService)
       = Some \<lparr>time = ''t1'', status = Error\<rparr>"
proof -
  have a: "\<not> validResponse (brokenMirrors 0 ''http://a'')"
    and b: "\<not> validResponse (brokenMirrors 1 ''http://b'')"
    and c: "\<not> validResponse (brokenMirrors 2 ''http://c'')"
    by (simp_all add: validResponse_def brokenMirrors_def isValid_def)
  have urls: "spreadUrls (threeMirrors None) = [''http://a'', ''http://b'', ''http://c'']"
    by (simp add: spreadUrls_def threeMirrors_def)
  have all: "\<forall>j<length (spreadUrls (threeMirrors None)).
             \<not> validResponse (brokenMirrors j (spreadUrls (threeMirrors None) ! j))"
    by (simp add: urls less_Suc_eq numeral_3_eq_3 validResponse_def brokenMirrors_def isValid_def)
  from getServerData_total_failure [of threeMirrors None brokenMirrors exampleElement "''t1''"
      oldService, OF all]
  have "rawData (getServerData exampleElement threeMirrors brokenMirrors ''t1'' None oldService)
          = rawData oldService"
    and "lastCacheUpdate (getServerData exampleElement threeMirrors brokenMirrors ''t1'' None oldService)
          = Some \<lparr>time = ''t1'', status = Error\<rparr>"
    by simp_all
  with a b c show ?thesis
    by (simp add: oldService_def)
qed

text \<open>
  C4, as the code has it. When \<^verbatim>\<open>getSearchUrl\<close> gives an array of mirrors and the
  \<open>k\<close>-th is the first whose response is valid, the console shows one attempt for each
  of the mirrors 0 to \<open>k\<close>, in order, and none after; the outcome is Success at the time
  of the clock; and the records of that mirror's \<^verbatim>\<open>pathList\<close> are appended to the
  empty cache when no request configuration was given, and to the cache as it was when
  one was given.
\<close>

theorem getServerData_failover:
  fixes s :: "('a, 'x) service"
  assumes urls: "getSearchUrl cfg = Urls us"
    and k: "k < length us"
    and resp: "fetch k (us ! k) = Parsed (Some pl)" and nonempty: "pl \<noteq> []"
    and before: "\<forall>j<k. \<not> validResponse (fetch j (us ! j))"
  shows "getServerData g getSearchUrl fetch now cfg s
     = s\<lparr>rawData := (if cfg = None then [] else rawData s)
                       @ spec_flattenPathList g (map_option type cfg) pl,
          console := console s
              @ concat (map (\<lambda>j. attemptLines fetch j (us ! j)) [0..<Suc k])
              @ map (\<lambda>_. WarnSetUpDataFailed) (filter (\<lambda>startChild. startChild = None) pl)
              @ [InfoFetchingDone (us ! k)],
          lastCacheUpdate := Some \<lparr>time = now, status = Success\<rparr>\<rparr>"
proof -
  have v: "isValid (Some pl)" using nonempty by (simp add: isValid_def)
  from resp have r: "fetch (0 + k) (us ! k) = Parsed (Some pl)" by simp
  from before have b: "\<forall>j<k. \<not> validResponse (fetch (0 + j) (us ! j))" by simp
  note loop = fetchLoop_hit [OF isValid_None k r v b, of "[]" "console s"]
  have su: "spreadUrls (getSearchUrl cfg) = us"
    by (simp add: urls spreadUrls_def)
  show ?thesis
    by (simp add: getServerData_def Let_def su loop fold_setUpData)
qed

lemma exampleTree_flat:
  "spec_flattenPathList exampleElement ty [Some exampleTree]
     = [\<lparr>searchRank = None, content = ''root''\<rparr>, \<lparr>searchRank = None, content = ''a''\<rparr>,
        \<lparr>searchRank = None, content = ''c''\<rparr>]"
  by (simp add: spec_flattenPathList_def spec_flatten_Cons exampleTree_def exampleElement_def)

text \<open>
  Three mirrors, the first two with network errors, the third with the tree: a full
  refresh replaces the old cache by the records of the tree.
\<close>

theorem getServerData_failover_witness:
  "threeMirrors None = Urls [''http://a'', ''http://b'', ''http://c'']
   \<and> thirdAnswers 2 ''http://c'' = Parsed (Some [Some exampleTree])
   \<and> \<not> validResponse (thirdAnswers 0 ''http://a'')
   \<and> \<not> validResponse (thirdAnswers 1 ''http://b'')
   \<and> rawData (getServerData exampleElement threeMirrors thirdAnswers ''t1'' None oldService)
       = [\<lparr>searchRank = None, content = ''root''\<rparr>, \<lparr>searchRank = None, content = ''a''\<rparr>,
          \<lparr>searchRank = None, content = ''c''\<rparr>]
   \<and> lastCacheUpdate (getServerData exampleElement threeMirrors thirdAnswers ''t1'' None oldService)
       = Some \<lparr>time = ''t1'', status = Success\<rparr>"
proof -
  let ?us = "[''http://a'', ''http://b'', ''http://c'']"
  have urls: "threeMirrors None = Urls ?us"
    by (simp add: threeMirrors_def)
  have k: "2 < length ?us" by simp
  have resp: "thirdAnswers 2 (?us ! 2) = Parsed (Some [Some exampleTree])"
    by (simp add: thirdAnswers_def)
  have nonempty: "[Some exampleTree] \<noteq> []" by simp
  have a: "\<not> validResponse (thirdAnswers 0 ''http://a'')"
    and b: "\<not> validResponse (thirdAnswers 1 ''http://b'')"
    by (simp_all add: validResponse_def thirdAnswers_def)
  from a b have before: "\<forall>j<2. \<not> validResponse (thirdAnswers j (?us ! j))"
    by (simp add: less_Suc_eq numeral_2_eq_2)
  from getServerData_failover [of threeMirrors None ?us 2 thirdAnswers "[Some exampleTree]"
      exampleElement "''t1''" oldService, OF urls k resp nonempty before]
  have "rawData (getServerData exampleElement threeMirrors thirdAnswers ''t1'' None oldService)
          = spec_flattenPathList exampleElement None [Some exampleTree]"
    and "lastCacheUpdate (getServerData exampleElement threeMirrors thirdAnswers ''t1'' None oldService)
          = Some \<lparr>time = ''t1'', status = Success\<rparr>"
    by simp_all
  with urls resp a b show ?thesis
    by (simp add: exampleTree_flat)
qed

text \<open>
  The claim as it is written fails when a request configuration is given: the third
  mirror is valid, and the cache is not the flattening of its \<^verbatim>\<open>pathList\<close>, which has
  three records, but the old record followed by them.
\<close>

theorem getServerData_merge_counterexample:
  "thirdAnswers 2 ''http://c'' = Parsed (Some [Some exampleTree])
   \<and> spec_flattenPathList exampleElement (Some Page) [Some exampleTree]
       = [\<lparr>searchRank = None, content = ''root''\<rparr>, \<lparr>searchRank = None, content = ''a''\<rparr>,
          \<lparr>searchRank = None, content = ''c''\<rparr>]
   \<and> rawData (getServerData exampleElement threeMirrors thirdAnswers ''t1''
                 (Some \<lparr>path = ''/content'', type = Page\<rparr>) oldService)
       = [\<lparr>searchRank = None, content = ''old''\<rparr>,
          \<lparr>searchRank = None, content = ''root''\<rparr>, \<lparr>searchRank = None, content = ''a''\<rparr>,
          \<lparr>searchRank = None, content = ''c''\<rparr>]"
  by (simp add: getServerData_def spreadUrls_def threeMirrors_def thirdAnswers_def isValid_def
        Let_def fold_setUpData exampleTree_flat oldService_def)

subsection \<open>The refresh cycle\<close>

lemma runCallbacks_append:
  "runCallbacks (pre @ post) s =
     (case runCallbacks pre s of Returned t \<Rightarrow> runCallbacks post t | Threw e t \<Rightarrow> Threw e t)"
  by (induction pre arbitrary: s) (simp_all split: outcome.splits)

lemma trigger_unfold:
  "triggerGetServerData g getSearchUrl fetch now cbs s =
      (case runCallbacks cbs (callbacksStart g getSearchUrl fetch now s) of
         Returned s3 \<Rightarrow> Returned (s3\<lparr>console := console s3 @ [InfoFinishCallbacks]\<rparr>)
       | Threw e s3 \<Rightarrow> Returned (s3\<lparr>console := console s3 @ [ErrorTrigger e]\<rparr>))"
  by (simp add: triggerGetServerData_def callbacksStart_def Let_def)

text \<open>
  C9, as the code has it. A cycle always returns: no exception leaves it. The callbacks
  run one after the other in the order of registration, each on the service as the one
  before left it. When a callback throws, the error is written to the console and the
  cycle ends there: the callbacks after it are not run. When none throws, all of them
  have run and the console says so.
\<close>

theorem triggerGetServerData_callbacks:
  fixes s :: "('a, 'x) service"
  shows "(\<exists>s'. triggerGetServerData g getSearchUrl fetch now cbs s = Returned s')
    \<and> (\<forall>pre cb post t0 e t.
          cbs = pre @ cb # post
          \<and> runCallbacks pre (callbacksStart g getSearchUrl fetch now s) = Returned t0
          \<and> cb t0 = Threw e t \<longrightarrow>
          triggerGetServerData g getSearchUrl fetch now cbs s
            = Returned (t\<lparr>console := console t @ [ErrorTrigger e]\<rparr>))
    \<and> (\<forall>t. runCallbacks cbs (callbacksStart g getSearchUrl fetch now s) = Returned t \<longrightarrow>
          triggerGetServerData g getSearchUrl fetch now cbs s
            = Returned (t\<lparr>console := console t @ [InfoFinishCallbacks]\<rparr>))
    \<and> (\<forall>pre cb post. cbs = pre @ cb # post \<longrightarrow>
          runCallbacks (pre @ [cb]) (callbacksStart g getSearchUrl fetch now s)
            = (case runCallbacks pre (callbacksStart g getSearchUrl fetch now s) of
                 Returned t0 \<Rightarrow> cb t0
               | Threw e t \<Rightarrow> Threw e t))"
proof -
  let ?s2 = "callbacksStart g getSearchUrl fetch now s"
  have a: "\<exists>s'. triggerGetServerData g getSearchUrl fetch now cbs s = Returned s'"
    by (simp add: trigger_unfold split: outcome.splits)
  have b: "\<forall>pre cb post t0 e t.
          cbs = pre @ cb # post \<and> runCallbacks pre ?s2 = Returned t0 \<and> cb t0 = Threw e t \<longrightarrow>
          triggerGetServerData g getSearchUrl fetch now cbs s
            = Returned (t\<lparr>console := console t @ [ErrorTrigger e]\<rparr>)"
    by (auto simp: trigger_unfold runCallbacks_append)
  have c: "\<forall>t. runCallbacks cbs ?s2 = Returned t \<longrightarrow>
          triggerGetServerData g getSearchUrl fetch now cbs s
            = Returned (t\<lparr>console := console t @ [InfoFinishCallbacks]\<rparr>)"
    by (simp add: trigger_unfold)
  have d: "\<forall>pre cb post. cbs = pre @ cb # post \<longrightarrow>
          runCallbacks (pre @ [cb]) ?s2
            = (case runCallbacks pre ?s2 of Returned t0 \<Rightarrow> cb t0 | Threw e t \<Rightarrow> Threw e t)"
    by (simp add: runCallbacks_append split: outcome.splits)
  show ?thesis
    by (rule conjI a b c d)+
qed

lemma callbacksStart_example:
  "callbacksStart exampleElement threeMirrors deadMirrors ''t1'' blankService
     = \<lparr>rawData = [], synonymsList = [],
        lastCacheUpdate = Some \<lparr>time = ''t1'', status = Error\<rparr>,
        console = [InfoUpdateCache,
                   InfoStartFetching 0 ''http://a'', WarnFetchError 0 ''http://a'',
                   InfoStartFetching 1 ''http://b'', WarnFetchError 1 ''http://b'',
                   InfoStartFetching 2 ''http://c'', WarnFetchError 2 ''http://c'',
                   WarnFetchingFailed, InfoFinishLoadingCache],
        searchLog = [], ext = False\<rparr>"
  by (simp add: callbacksStart_def getServerData_def spreadUrls_def threeMirrors_def
        deadMirrors_def blankService_def isValid_def Let_def)

text \<open>
  Two callbacks, the first of which throws; the second would set the flag \<open>ext\<close>. The
  cycle returns, the error is on the console, and the flag is not set.
\<close>

theorem triggerGetServerData_callbacks_witness:
  "failingCallbacks = [] @ (\<lambda>s. Threw ''boom'' s) # [\<lambda>s. Returned (s\<lparr>ext := True\<rparr>)]
   \<and> runCallbacks [] (callbacksStart exampleElement threeMirrors deadMirrors ''t1'' blankService)
       = Returned (callbacksStart exampleElement threeMirrors deadMirrors ''t1'' blankService)
   \<and> triggerGetServerData exampleElement threeMirrors deadMirrors ''t1'' failingCallbacks blankService
       = Returned ((callbacksStart exampleElement threeMirrors deadMirrors ''t1'' blankService)
           \<lparr>console := console (callbacksStart exampleElement threeMirrors deadMirrors ''t1'' blankService)
                          @ [ErrorTrigger ''boom'']\<rparr>)"
proof -
  let ?s2 = "callbacksStart exampleElement threeMirrors deadMirrors ''t1'' blankService"
  have split: "failingCallbacks = [] @ (\<lambda>s. Threw ''boom'' s) # [\<lambda>s. Returned (s\<lparr>ext := True\<rparr>)]"
    by (simp add: failingCallbacks_def)
  have pre: "runCallbacks [] ?s2 = Returned ?s2"
    by simp
  have throws: "(\<lambda>s. Threw ''boom'' s) ?s2 = Threw ''boom'' ?s2"
    by simp
  from triggerGetServerData_callbacks [of exampleElement threeMirrors deadMirrors "''t1''"
      failingCallbacks blankService] split pre throws
  have "triggerGetServerData exampleElement threeMirrors deadMirrors ''t1'' failingCallbacks blankService
       = Returned (?s2\<lparr>console := console ?s2 @ [ErrorTrigger ''boom'']\<rparr>)"
    by blast
  with split pre show ?thesis
    by (intro conjI)
qed

text \<open>
  The claim as it is written fails on the same cycle: the callback after the one that
  throws does not run, so the flag it would set is still \<^term>\<open>False\<close> when the cycle
  has returned.
\<close>

theorem triggerGetServerData_stops_counterexample:
  "triggerGetServerData exampleElement threeMirrors deadMirrors ''t1'' failingCallbacks blankService
     = Returned \<lparr>rawData = [], synonymsList = [],
        lastCacheUpdate = Some \<lparr>time = ''t1'', status = Error\<rparr>,
        console = [InfoUpdateCache,
                   InfoStartFetching 0 ''http://a'', WarnFetchError 0 ''http://a'',
                   InfoStartFetching 1 ''http://b'', WarnFetchError 1 ''http://b'',
                   InfoStartFetching 2 ''http://c'', WarnFetchError 2 ''http://c'',
                   WarnFetchingFailed, InfoFinishLoadingCache, ErrorTrigger ''boom''],
        searchLog = [], ext = False\<rparr>
   \<and> runCallbacks (tl failingCallbacks) blankService = Returned (blankService\<lparr>ext := True\<rparr>)"
  by (simp add: trigger_unfold callbacksStart_example failingCallbacks_def)

subsection \<open>The empty token\<close>

lemma split_nonempty: "split c s \<noteq> []"
  by (induction s) (auto split: list.splits)

lemma split_append: "split c (a @ c # b) = split c a @ split c b"
proof (induction a)
  case Nil
  show ?case by simp
next
  case (Cons x a)
  obtain t ts where ts: "split c a = t # ts"
    using split_nonempty [of c a] by (cases "split c a") auto
  show ?case
    by (simp add: Cons.IH ts)
qed

text \<open>Two separators in a row give an empty token.\<close>

lemma split_double:
  assumes "sublist [c, c] s"
  shows "[] \<in> set (split c s)" and "length (split c s) > 1"
proof -
  from assms obtain a b where "s = a @ [c, c] @ b" by (auto simp: sublist_def)
  then have "split c s = split c a @ [] # split c b"
    using split_append [of c a "c # b"] by simp
  then show "[] \<in> set (split c s)" and "length (split c s) > 1"
    using split_nonempty [of c a] by (auto simp: Suc_lessI)
qed

text \<open>In descending length the empty tokens come last.\<close>

lemma sorted_by_length_partition:
  "sorted_wrt (\<lambda>a b. length a \<ge> length b) (ws :: string list) \<Longrightarrow>
   ws = filter (\<lambda>w. w \<noteq> []) ws @ filter (\<lambda>w. w = []) ws"
proof (induction ws)
  case Nil
  show ?case by simp
next
  case (Cons w ws)
  show ?case
  proof (cases "w = []")
    case True
    with Cons.prems have "\<forall>x\<in>set ws. x = []" by simp
    then have "filter (\<lambda>w. w \<noteq> []) ws = []" and "filter (\<lambda>w. w = []) ws = ws"
      by (simp_all add: filter_empty_conv filter_id_conv)
    with True show ?thesis by simp
  next
    case False
    with Cons show ?thesis by simp
  qed
qed

lemma tokens_partition:
  fixes word :: string
  defines "toks \<equiv> sortDescending (\<lambda>w. int (length w)) (split (CHR '' '') word)"
  assumes "[] \<in> set (split (CHR '' '') word)"
  shows "\<exists>rest. toks = filter (\<lambda>w. w \<noteq> []) toks @ [] # rest"
proof -
  have "sorted_wrt (\<lambda>a b. length a \<ge> length b) toks"
    using sortDescending_sorted [of "\<lambda>w. int (length w)" "split (CHR '' '') word"]
    by (simp add: toks_def)
  then have p: "toks = filter (\<lambda>w. w \<noteq> []) toks @ filter (\<lambda>w. w = []) toks"
    by (rule sorted_by_length_partition)
  have "[] \<in> set toks" using assms(2) by (simp add: toks_def sortDescending_def)
  then have "filter (\<lambda>w. w = []) toks \<noteq> []" by (simp add: filter_empty_conv)
  then obtain e rest where e: "filter (\<lambda>w. w = []) toks = e # rest"
    by (cases "filter (\<lambda>w. w = []) toks") auto
  then have "e \<in> set (filter (\<lambda>w. w = []) toks)" by simp
  then have "e = []" by simp
  with p e show ?thesis by metis
qed

lemma getSearchRank_Some:
  "\<exists>r. searchRank (getSearchRank gsc m syns w p) = Some r"
  by (simp add: getSearchRank_eq)

lemma searchForSingleWord_fields:
  "synonymsList (snd (searchForSingleWord gsc w p s)) = synonymsList s"
  "map content (rawData (snd (searchForSingleWord gsc w p s))) = map content (rawData s)"
  by (simp_all add: searchForSingleWord_def Let_def getSearchRank_eq)

text \<open>A scoring pass without a match leaves no record with a positive rank.\<close>

lemma searchForSingleWord_zero:
  assumes "w \<noteq> []" and "foundItems (fst (searchForSingleWord gsc w p s)) = 0"
  shows "allScoredNonPositive (snd (searchForSingleWord gsc w p s))"
proof -
  let ?scored = "map (\<lambda>m. getSearchRank gsc m (getSynonyms (synonymsList s) w) w p) (rawData s)"
  have le: "\<forall>m\<in>set ?scored. rankOf m \<le> 0"
    using assms by (auto simp: searchForSingleWord_scoring filter_empty_conv not_less)
  have "\<exists>r\<le>0. searchRank m = Some r" if "m \<in> set ?scored" for m
  proof -
    from that obtain m0 where m: "m = getSearchRank gsc m0 (getSynonyms (synonymsList s) w) w p"
      by auto
    then obtain r where r: "searchRank m = Some r"
      using getSearchRank_Some [of gsc m0] by blast
    with le that have "r \<le> 0" by (auto simp: rankOf_def)
    with r show ?thesis by blast
  qed
  then have "\<forall>m\<in>set ?scored. case searchRank m of Some r \<Rightarrow> r \<le> 0 | None \<Rightarrow> False"
    by fastforce
  with assms(1) show ?thesis
    by (simp add: allScoredNonPositive_def searchForSingleWord_def Let_def list_all_iff)
qed

lemma afterWords_fields:
  "synonymsList (afterWords gsc ws s) = synonymsList s"
  "map content (rawData (afterWords gsc ws s)) = map content (rawData s)"
  by (induction ws arbitrary: s) (simp_all add: searchForSingleWord_fields)

lemma afterWords_zero:
  "allScoredNonPositive s \<Longrightarrow> \<forall>w\<in>set ws. w \<noteq> [] \<Longrightarrow> \<forall>j<length ws. \<not> wordHits gsc s ws j \<Longrightarrow>
   allScoredNonPositive (afterWords gsc ws s)"
proof (induction ws arbitrary: s)
  case Nil
  then show ?case by simp
next
  case (Cons w ws)
  from Cons.prems(3) have "\<not> wordHits gsc s (w # ws) 0" by blast
  then have z: "foundItems (fst (searchForSingleWord gsc w False s)) = 0"
    by (simp add: wordHits_simps)
  from Cons.prems(2) have w: "w \<noteq> []" by simp
  have rest: "\<forall>j<length ws. \<not> wordHits gsc (snd (searchForSingleWord gsc w False s)) ws j"
  proof (intro allI impI)
    fix j assume "j < length ws"
    then have "\<not> wordHits gsc s (w # ws) (Suc j)" using Cons.prems(3) by simp
    then show "\<not> wordHits gsc (snd (searchForSingleWord gsc w False s)) ws j"
      by (simp add: wordHits_simps)
  qed
  from Cons.IH [OF searchForSingleWord_zero [OF w z] _ rest] Cons.prems(2)
  show ?case by simp
qed

lemma searchForSingleWord_empty:
  "fst (searchForSingleWord gsc [] p s)
     = \<lparr>search = joinComma (getSynonyms (synonymsList s) []), foundItems = length (rawData s),
        results = rawData s\<rparr>"
  by (simp add: searchForSingleWord_def Let_def)

text \<open>
  C10, as the code has it. Let the normalised query hold two blanks in a row, the cache
  be non-empty and no synonym group hold the empty string. If the first tier and every
  non-empty token find nothing, \<^verbatim>\<open>getSearchResult\<close> returns the whole cache, unfiltered
  and in cache order, under the empty label; \<^verbatim>\<open>foundItems\<close> is the size of the cache.
  The records are those of the cache, with the rank the last scoring pass of this very
  query gave them: none is positive, and no rank of an earlier query is left.
\<close>

theorem getSearchResult_empty_token:
  fixes gsc :: "'a CommonSearchModel \<Rightarrow> SearchRankModel list" and s :: "('a, 'x) service"
    and q :: string
  defines "word \<equiv> toLowerCase (trim q)"
  defines "s1 \<equiv> snd (searchForSingleWord gsc word False s)"
  defines "toks \<equiv> sortDescending (\<lambda>w. int (length w)) (split (CHR '' '') word)"
  defines "s2 \<equiv> afterWords gsc (filter (\<lambda>w. w \<noteq> []) toks) s1"
  assumes dbl: "sublist ''  '' word"
    and cache: "rawData s \<noteq> []"
    and table: "\<forall>g\<in>set (synonymsList s). [] \<notin> set g"
    and tier1: "foundItems (fst (searchForSingleWord gsc word False s)) = 0"
    and tier2: "\<forall>j<length toks. toks ! j \<noteq> [] \<longrightarrow> \<not> wordHits gsc s1 toks j"
  shows "fst (getSearchResult gsc (Some q) s)
           = \<lparr>search = [], foundItems = length (rawData s), results = rawData s2\<rparr>
       \<and> map content (rawData s2) = map content (rawData s)
       \<and> (\<forall>m\<in>set (rawData s2). \<exists>r\<le>0. searchRank m = Some r)"
proof -
  let ?ne = "filter (\<lambda>w. w \<noteq> []) toks"
  from dbl have w: "word \<noteq> []" by auto
  then have q: "q \<noteq> []" by (auto simp: word_def trim_def toLowerCase_def)
  note sd = split_double [OF dbl]
  from tokens_partition [OF sd(1)] obtain rest where part: "toks = ?ne @ [] # rest"
    by (auto simp: toks_def)
  have len: "length ?ne < length toks"
    by (subst (2) part) simp
  have nth: "toks ! length ?ne = []"
    by (subst part) (simp add: nth_append)
  have tk: "take (length ?ne) toks = ?ne"
    by (subst part) simp
  have ne: "\<forall>w\<in>set ?ne. w \<noteq> []" by simp
  have before_ne: "\<forall>j<length ?ne. \<not> wordHits gsc s1 ?ne j"
  proof (intro allI impI)
    fix j assume j: "j < length ?ne"
    then have "?ne ! j \<in> set ?ne" by (rule nth_mem)
    then have "?ne ! j \<noteq> []" by simp
    moreover have "toks ! j = ?ne ! j"
      using j by (subst part) (simp add: nth_append)
    ultimately have "\<not> wordHits gsc s1 toks j"
      using tier2 j len by simp
    then have "\<not> wordHits gsc s1 (?ne @ [] # rest) j" using part by simp
    then show "\<not> wordHits gsc s1 ?ne j" using j by (simp add: wordHits_append)
  qed
  have before: "\<forall>j<length ?ne. \<not> wordHits gsc s1 toks j"
  proof (intro allI impI)
    fix j assume j: "j < length ?ne"
    with before_ne have "\<not> wordHits gsc s1 ?ne j" by simp
    then have "\<not> wordHits gsc s1 (?ne @ [] # rest) j" using j by (simp add: wordHits_append)
    then show "\<not> wordHits gsc s1 toks j" using part by simp
  qed
  have cont: "map content (rawData s2) = map content (rawData s)"
    by (simp add: s2_def s1_def afterWords_fields searchForSingleWord_fields)
  then have "length (map content (rawData s2)) = length (map content (rawData s))" by simp
  then have lens: "length (rawData s2) = length (rawData s)" by simp
  have syn: "synonymsList s2 = synonymsList s"
    by (simp add: s2_def s1_def afterWords_fields searchForSingleWord_fields)
  have empty: "fst (searchForSingleWord gsc [] False s2)
      = \<lparr>search = [], foundItems = length (rawData s), results = rawData s2\<rparr>"
    by (simp add: searchForSingleWord_empty syn lens getSynonyms_empty_word [OF table])
  have hit: "wordHits gsc s1 toks (length ?ne)"
    using cache by (simp add: wordHits_def nth tk empty s2_def [symmetric])
  note sl = secondLevel_hit [OF len hit before, unfolded nth tk, folded s2_def]
  have res: "fst (getSearchResult gsc (Some q) s)
           = \<lparr>search = [], foundItems = length (rawData s), results = rawData s2\<rparr>"
    using tier1 sd(2)
    by (simp add: getSearchResult_unfold [OF q] Let_def word_def [symmetric] s1_def [symmetric]
          toks_def [symmetric] sl empty)
  have z1: "allScoredNonPositive s1"
    unfolding s1_def by (rule searchForSingleWord_zero [OF w tier1])
  have "allScoredNonPositive s2"
    unfolding s2_def by (rule afterWords_zero [OF z1 ne before_ne])
  then have z: "\<forall>m\<in>set (rawData s2). \<exists>r\<le>0. searchRank m = Some r"
    by (auto simp: allScoredNonPositive_def list_all_iff split: option.splits)
  show ?thesis
    by (rule conjI res cont z)+
qed

text \<open>
  The installation, asked for \<^verbatim>\<open>zzz  yyy\<close> (two blanks): nothing matches, the empty
  token comes last and returns the three pages, each with the rank 0 of the last pass.
\<close>

theorem getSearchResult_empty_token_witness:
  "sublist ''  '' (toLowerCase (trim ''zzz  yyy''))
   \<and> rawData exampleService \<noteq> []
   \<and> [] \<notin> set [''auto'', ''pkw'']
   \<and> foundItems (fst (searchForSingleWord exampleCriteria ''zzz  yyy'' False exampleService)) = 0
   \<and> \<not> wordHits exampleCriteria
         (snd (searchForSingleWord exampleCriteria ''zzz  yyy'' False exampleService))
         [''zzz'', ''yyy'', ''''] 0
   \<and> \<not> wordHits exampleCriteria
         (snd (searchForSingleWord exampleCriteria ''zzz  yyy'' False exampleService))
         [''zzz'', ''yyy'', ''''] (Suc 0)
   \<and> fst (getSearchResult exampleCriteria (Some ''zzz  yyy'') exampleService)
       = \<lparr>search = [], foundItems = 3,
          results = [\<lparr>searchRank = Some 0, content = (''Impressum'', ''legal notice'')\<rparr>,
                     \<lparr>searchRank = Some 0, content = (''PKW Tarife'', ''rates'')\<rparr>,
                     \<lparr>searchRank = Some 0, content = (''Auto'', ''auto insurance'')\<rparr>]\<rparr>"
proof -
  let ?s1 = "snd (searchForSingleWord exampleCriteria ''zzz  yyy'' False exampleService)"
  have word: "toLowerCase (trim ''zzz  yyy'') = ''zzz  yyy''"
    by code_simp
  have dbl: "sublist ''  '' ''zzz  yyy''"
    by code_simp
  have cache: "rawData exampleService \<noteq> []"
    by (simp add: exampleService_def)
  have group: "[] \<notin> set [''auto'', ''pkw'']"
    by simp
  then have table: "\<forall>g\<in>set (synonymsList exampleService). [] \<notin> set g"
    by (simp add: exampleService_def)
  have tier1: "foundItems (fst (searchForSingleWord exampleCriteria ''zzz  yyy'' False exampleService)) = 0"
    by code_simp
  have toks: "sortDescending (\<lambda>w. int (length w)) (split (CHR '' '') ''zzz  yyy'')
      = [''zzz'', ''yyy'', '''']"
    by code_simp
  have m0: "\<not> wordHits exampleCriteria ?s1 [''zzz'', ''yyy'', ''''] 0"
    by code_simp
  have m1: "\<not> wordHits exampleCriteria ?s1 [''zzz'', ''yyy'', ''''] (Suc 0)"
    by code_simp
  from m0 m1 have tier2: "\<forall>j<length [''zzz'', ''yyy'', ''''].
      [''zzz'', ''yyy'', ''''] ! j \<noteq> [] \<longrightarrow> \<not> wordHits exampleCriteria ?s1 [''zzz'', ''yyy'', ''''] j"
    by (simp add: less_Suc_eq)
  have len: "length (rawData exampleService) = 3"
    by (simp add: exampleService_def)
  have last: "rawData (afterWords exampleCriteria (filter (\<lambda>w. w \<noteq> []) [''zzz'', ''yyy'', '''']) ?s1)
      = [\<lparr>searchRank = Some 0, content = (''Impressum'', ''legal notice'')\<rparr>,
         \<lparr>searchRank = Some 0, content = (''PKW Tarife'', ''rates'')\<rparr>,
         \<lparr>searchRank = Some 0, content = (''Auto'', ''auto insurance'')\<rparr>]"
    by code_simp
  note inst = getSearchResult_empty_token [where q = "''zzz  yyy''" and gsc = exampleCriteria
      and s = exampleService, unfolded word toks, OF dbl cache table tier1 tier2]
  from inst have "fst (getSearchResult exampleCriteria (Some ''zzz  yyy'') exampleService)
       = \<lparr>search = [], foundItems = length (rawData exampleService),
          results = rawData (afterWords exampleCriteria
                      (filter (\<lambda>w. w \<noteq> []) [''zzz'', ''yyy'', '''']) ?s1)\<rparr>"
    by (rule conjunct1)
  then have res: "fst (getSearchResult exampleCriteria (Some ''zzz  yyy'') exampleService)
       = \<lparr>search = [], foundItems = 3,
          results = [\<lparr>searchRank = Some 0, content = (''Impressum'', ''legal notice'')\<rparr>,
                     \<lparr>searchRank = Some 0, content = (''PKW Tarife'', ''rates'')\<rparr>,
                     \<lparr>searchRank = Some 0, content = (''Auto'', ''auto insurance'')\<rparr>]\<rparr>"
    by (simp only: len last)
  from dbl have dbl': "sublist ''  '' (toLowerCase (trim ''zzz  yyy''))"
    by (simp only: word)
  from dbl' cache group tier1 m0 m1 res show ?thesis
    by (intro conjI)
qed

text \<open>
  The claim as it is written fails on a cache on which an earlier query has left the
  rank 5: the query \<^verbatim>\<open>zzz  yyy\<close> finds nothing in any tier, returns the whole cache, and
  the record comes back with the rank 0 of this query's own passes, not with the 5.
\<close>

theorem getSearchResult_empty_token_counterexample:
  "sublist ''  '' (toLowerCase (trim ''zzz  yyy''))
   \<and> rawData rankedService = [\<lparr>searchRank = Some 5, content = (''Auto'', ''auto insurance'')\<rparr>]
   \<and> foundItems (fst (searchForSingleWord exampleCriteria ''zzz  yyy'' False rankedService)) = 0
   \<and> fst (getSearchResult exampleCriteria (Some ''zzz  yyy'') rankedService)
       = \<lparr>search = [], foundItems = 1,
          results = [\<lparr>searchRank = Some 0, content = (''Auto'', ''auto insurance'')\<rparr>]\<rparr>"
proof -
  have a: "sublist ''  '' (toLowerCase (trim ''zzz  yyy''))"
    by code_simp
  have b: "rawData rankedService = [\<lparr>searchRank = Some 5, content = (''Auto'', ''auto insurance'')\<rparr>]"
    by (simp add: rankedService_def)
  have c: "foundItems (fst (searchForSingleWord exampleCriteria ''zzz  yyy'' False rankedService)) = 0"
    by code_simp
  have d: "fst (getSearchResult exampleCriteria (Some ''zzz  yyy'') rankedService)
       = \<lparr>search = [], foundItems = 1,
          results = [\<lparr>searchRank = Some 0, content = (''Auto'', ''auto insurance'')\<rparr>]\<rparr>"
    by code_simp
  from a b c d show ?thesis
    by (intro conjI)
qed


end
